theory Spec2Isabelle
  imports Complex_Main "HOL-Library.Word" "HOL-Library.Monad_Syntax"
begin

section \<open>Pixel buffers\<close>

text \<open>
  A pixel is a packed 32-bit ARGB value (\<open>uint32_t\<close>). A pixel buffer is the row-major
  array the C code indexes; a read or a write outside of the buffer is not a value of
  the program, so every access is checked and the model returns \<open>None\<close> there.
  C \<open>int\<close> sizes and indices are modelled by \<open>int\<close>: the arithmetic is exact, and
  buffers whose index computations leave the range of \<open>int\<close> are not considered.
\<close>

type_synonym pixel = "32 word"

definition rd :: "pixel list \<Rightarrow> int \<Rightarrow> pixel option" where
  "rd buf i = (if 0 \<le> i \<and> i < int (length buf) then Some (buf ! nat i) else None)"

definition wr :: "pixel list \<Rightarrow> int \<Rightarrow> pixel \<Rightarrow> pixel list option" where
  "wr buf i v = (if 0 \<le> i \<and> i < int (length buf) then Some (buf[nat i := v]) else None)"

subsection \<open>scale2x.c: the 2x pass\<close>

definition pixels_equal :: "pixel \<Rightarrow> pixel \<Rightarrow> bool" where
  "pixels_equal a b = (a = b)"

text \<open>The body of the inner loop of \<open>scale2x\<close>: one source pixel, four writes.\<close>

definition scale2x_pixel ::
  "pixel list \<Rightarrow> int \<Rightarrow> int \<Rightarrow> int \<Rightarrow> int \<Rightarrow> pixel list \<Rightarrow> pixel list option" where
  "scale2x_pixel src w h y x dst =
     (let dw = w * 2 in
      do {
        P \<leftarrow> rd src (y * w + x);
        A \<leftarrow> (if y > 0 then rd src ((y - 1) * w + x) else Some P);
        B \<leftarrow> (if x < w - 1 then rd src (y * w + x + 1) else Some P);
        C \<leftarrow> (if x > 0 then rd src (y * w + x - 1) else Some P);
        D \<leftarrow> (if y < h - 1 then rd src ((y + 1) * w + x) else Some P);
        let dx = x * 2;
        let dy = y * 2;
        let ca = pixels_equal C A;
        let ab = pixels_equal A B;
        let bd = pixels_equal B D;
        let dc = pixels_equal D C;
        let cd = pixels_equal C D;
        let ac = pixels_equal A C;
        let ba = pixels_equal B A;
        let db = pixels_equal D B;
        dst1 \<leftarrow> wr dst (dy * dw + dx) (if ca \<and> \<not> cd \<and> \<not> ab then A else P);
        dst2 \<leftarrow> wr dst1 (dy * dw + dx + 1) (if ab \<and> \<not> ac \<and> \<not> bd then B else P);
        dst3 \<leftarrow> wr dst2 ((dy + 1) * dw + dx) (if dc \<and> \<not> db \<and> \<not> ac then C else P);
        wr dst3 ((dy + 1) * dw + dx + 1) (if bd \<and> \<not> ba \<and> \<not> dc then D else P)
      })"

text \<open>The loop over \<open>x\<close> (from \<open>x\<close> up to \<open>w\<close>) and the loop over \<open>y\<close>.\<close>

function scale2x_row ::
  "pixel list \<Rightarrow> int \<Rightarrow> int \<Rightarrow> int \<Rightarrow> int \<Rightarrow> pixel list \<Rightarrow> pixel list option" where
  "scale2x_row src w h y x dst =
     (if x < w then
        (case scale2x_pixel src w h y x dst of
           None \<Rightarrow> None
         | Some dst' \<Rightarrow> scale2x_row src w h y (x + 1) dst')
      else Some dst)"
  by pat_completeness auto
termination
  by (relation "measure (\<lambda>(src, w, h, y, x, dst). nat (w - x))") auto

function scale2x_rows ::
  "pixel list \<Rightarrow> int \<Rightarrow> int \<Rightarrow> int \<Rightarrow> pixel list \<Rightarrow> pixel list option" where
  "scale2x_rows src w h y dst =
     (if y < h then
        (case scale2x_row src w h y 0 dst of
           None \<Rightarrow> None
         | Some dst' \<Rightarrow> scale2x_rows src w h (y + 1) dst')
      else Some dst)"
  by pat_completeness auto
termination
  by (relation "measure (\<lambda>(src, w, h, y, dst). nat (h - y))") auto

definition scale2x :: "pixel list \<Rightarrow> pixel list \<Rightarrow> int \<Rightarrow> int \<Rightarrow> pixel list option" where
  "scale2x src dst w h = scale2x_rows src w h 0 dst"

subsection \<open>scale2x.c: the multi-pass upscaler\<close>

definition malloc_pixels :: "(nat \<Rightarrow> pixel) \<Rightarrow> int \<Rightarrow> pixel list option" where
  "malloc_pixels junk n = (if 0 \<le> n then Some (map junk [0..<nat n]) else None)"

definition memcpy_pixels :: "pixel list \<Rightarrow> pixel list \<Rightarrow> int \<Rightarrow> pixel list option" where
  "memcpy_pixels dst src n =
     (if 0 \<le> n \<and> n \<le> int (length src) \<and> n \<le> int (length dst)
      then Some (take (nat n) src @ drop (nat n) dst) else None)"

function scale_nx_loop ::
  "(nat \<Rightarrow> pixel) \<Rightarrow> pixel list \<Rightarrow> int \<Rightarrow> int \<Rightarrow> int \<Rightarrow> (pixel list \<times> int \<times> int) option" where
  "scale_nx_loop junk current cur_w cur_h scale =
     (if scale \<ge> 2 then
        (let next_w = cur_w * 2; next_h = cur_h * 2 in
         do {
           next \<leftarrow> malloc_pixels junk (next_w * next_h);
           next' \<leftarrow> scale2x current next cur_w cur_h;
           scale_nx_loop junk next' next_w next_h (scale div 2)
         })
      else Some (current, cur_w, cur_h))"
  by pat_completeness auto
termination
  by (relation "measure (\<lambda>(junk, current, cur_w, cur_h, scale). nat scale)") auto

definition scale_nx ::
  "(nat \<Rightarrow> pixel) \<Rightarrow> pixel list \<Rightarrow> int \<Rightarrow> int \<Rightarrow> int \<Rightarrow> (pixel list \<times> int \<times> int) option" where
  "scale_nx junk src w h scale =
     (if scale < 2 then
        do {
          copy \<leftarrow> malloc_pixels junk (w * h);
          copy' \<leftarrow> memcpy_pixels copy src (w * h);
          Some (copy', w, h)
        }
      else scale_nx_loop junk src w h scale)"

subsection \<open>Reading the result: pixels, neighbours and the EPX rule\<close>

text \<open>
  \<open>pixel_at buf w x y\<close> is the pixel in column \<open>x\<close> of row \<open>y\<close> of a row-major buffer
  of width \<open>w\<close>. The four functions after it are the samples \<open>A\<close>, \<open>B\<close>, \<open>C\<close>, \<open>D\<close> as
  lines 70 to 73 of scale2x.c take them, and \<open>epx_at\<close> is the value that lines 88 to 91
  store at the destination coordinates \<open>(X, Y)\<close>.
\<close>

definition pixel_at :: "pixel list \<Rightarrow> int \<Rightarrow> int \<Rightarrow> int \<Rightarrow> pixel" where
  "pixel_at src w x y = src ! nat (y * w + x)"

definition nb_up :: "pixel list \<Rightarrow> int \<Rightarrow> int \<Rightarrow> int \<Rightarrow> int \<Rightarrow> pixel" where
  "nb_up src w h x y = (if y > 0 then pixel_at src w x (y - 1) else pixel_at src w x y)"
definition nb_right :: "pixel list \<Rightarrow> int \<Rightarrow> int \<Rightarrow> int \<Rightarrow> int \<Rightarrow> pixel" where
  "nb_right src w h x y = (if x < w - 1 then pixel_at src w (x + 1) y else pixel_at src w x y)"
definition nb_left :: "pixel list \<Rightarrow> int \<Rightarrow> int \<Rightarrow> int \<Rightarrow> int \<Rightarrow> pixel" where
  "nb_left src w h x y = (if x > 0 then pixel_at src w (x - 1) y else pixel_at src w x y)"
definition nb_down :: "pixel list \<Rightarrow> int \<Rightarrow> int \<Rightarrow> int \<Rightarrow> int \<Rightarrow> pixel" where
  "nb_down src w h x y = (if y < h - 1 then pixel_at src w x (y + 1) else pixel_at src w x y)"

definition epx_tl :: "pixel \<Rightarrow> pixel \<Rightarrow> pixel \<Rightarrow> pixel \<Rightarrow> pixel \<Rightarrow> pixel" where
  "epx_tl P A B C D = (if C = A \<and> C \<noteq> D \<and> A \<noteq> B then A else P)"
definition epx_tr :: "pixel \<Rightarrow> pixel \<Rightarrow> pixel \<Rightarrow> pixel \<Rightarrow> pixel \<Rightarrow> pixel" where
  "epx_tr P A B C D = (if A = B \<and> A \<noteq> C \<and> B \<noteq> D then B else P)"
definition epx_bl :: "pixel \<Rightarrow> pixel \<Rightarrow> pixel \<Rightarrow> pixel \<Rightarrow> pixel \<Rightarrow> pixel" where
  "epx_bl P A B C D = (if D = C \<and> D \<noteq> B \<and> C \<noteq> A then C else P)"
definition epx_br :: "pixel \<Rightarrow> pixel \<Rightarrow> pixel \<Rightarrow> pixel \<Rightarrow> pixel \<Rightarrow> pixel" where
  "epx_br P A B C D = (if B = D \<and> B \<noteq> A \<and> D \<noteq> C then D else P)"

definition epx_at :: "pixel list \<Rightarrow> int \<Rightarrow> int \<Rightarrow> int \<Rightarrow> int \<Rightarrow> pixel" where
  "epx_at src w h X Y =
     (let x = X div 2; y = Y div 2;
          P = pixel_at src w x y; A = nb_up src w h x y; B = nb_right src w h x y;
          C = nb_left src w h x y; D = nb_down src w h x y
      in if even Y then (if even X then epx_tl P A B C D else epx_tr P A B C D)
         else (if even X then epx_bl P A B C D else epx_br P A B C D))"



subsection \<open>scale2x.c: the viewport extractor\<close>

text \<open>
  A Cairo image surface, as far as the program reads it: its status, format, size, stride
  (in bytes), device scale and pixel data. The data of a 32-bit format is an array of
  \<open>uint32_t\<close> whose rows are \<open>stride / 4\<close> pixels apart. \<open>cairo_image_surface_create\<close> follows
  Cairo's documentation: the pixels of a new surface are zero, the stride of a 32-bit
  format is four times the width, and a size outside of \<open>0..32767\<close> gives a surface in
  the error state, which has no data.

  \<open>surface_pixel\<close> is the read \<open>((uint32_t *)(src_data + src_y * src_stride))[col]\<close>; it is
  \<open>None\<close> for a position outside of the image as well as outside of the array, so that a
  result other than \<open>None\<close> says that every read was inside the source.

  \<open>scale2x_viewport\<close> returns \<open>Some None\<close> for the C function's \<open>NULL\<close>, \<open>Some (Some s)\<close> for
  a new surface, and \<open>None\<close> when an access was out of bounds.
\<close>


datatype cairo_format = CAIRO_FORMAT_INVALID | CAIRO_FORMAT_ARGB32 | CAIRO_FORMAT_RGB24
  | CAIRO_FORMAT_A8 | CAIRO_FORMAT_A1 | CAIRO_FORMAT_RGB16_565 | CAIRO_FORMAT_RGB30

record cairo_surface =
  surf_error :: bool
  surf_format :: cairo_format
  surf_width :: int
  surf_height :: int
  surf_stride :: int
  surf_scale_x :: real
  surf_scale_y :: real
  surf_data :: "pixel list"

definition cairo_image_surface_create :: "cairo_format \<Rightarrow> int \<Rightarrow> int \<Rightarrow> cairo_surface" where
  "cairo_image_surface_create format width height =
     (if width < 0 \<or> height < 0 \<or> 32767 < width \<or> 32767 < height then
        \<lparr>surf_error = True, surf_format = CAIRO_FORMAT_INVALID, surf_width = 0, surf_height = 0,
         surf_stride = 0, surf_scale_x = 1, surf_scale_y = 1, surf_data = []\<rparr>
      else
        \<lparr>surf_error = False, surf_format = format, surf_width = width, surf_height = height,
         surf_stride = 4 * width, surf_scale_x = 1, surf_scale_y = 1,
         surf_data = replicate (nat (width * height)) 0\<rparr>)"








subsection \<open>Reading the result: the clamped viewport\<close>







subsection \<open>swappy.h: annotations and the session state\<close>

text \<open>
  A \<open>double\<close> is modelled by a real number, so the arithmetic of the model is exact.
  \<open>c_int_of_double\<close> is the conversion \<open>(int) r\<close>, which truncates towards zero, and
  \<open>CLAMP\<close> is GLib's macro.
\<close>

definition c_int_of_double :: "real \<Rightarrow> int" where
  "c_int_of_double r = (if 0 \<le> r then \<lfloor>r\<rfloor> else \<lceil>r\<rceil>)"

definition CLAMP :: "'a::linorder \<Rightarrow> 'a \<Rightarrow> 'a \<Rightarrow> 'a" where
  "CLAMP v low high = (if v > high then high else if v < low then low else v)"

datatype swappy_paint_type =
    SWAPPY_PAINT_MODE_PAN
  | SWAPPY_PAINT_MODE_BRUSH
  | SWAPPY_PAINT_MODE_TEXT
  | SWAPPY_PAINT_MODE_RECTANGLE
  | SWAPPY_PAINT_MODE_ELLIPSE
  | SWAPPY_PAINT_MODE_ARROW
  | SWAPPY_PAINT_MODE_BLUR
  | SWAPPY_PAINT_MODE_LINE
  | SWAPPY_PAINT_MODE_HIGHLIGHTER
  | SWAPPY_PAINT_MODE_CROP

datatype swappy_paint_shape_operation =
  SWAPPY_PAINT_SHAPE_OPERATION_STROKE | SWAPPY_PAINT_SHAPE_OPERATION_FILL

datatype swappy_text_mode = SWAPPY_TEXT_MODE_EDIT | SWAPPY_TEXT_MODE_DONE

record swappy_point =
  point_x :: real
  point_y :: real

record swappy_paint_text =
  text_r :: real
  text_g :: real
  text_b :: real
  text_a :: real
  text_s :: real
  text_font :: string
  text_text :: string
  text_cursor :: int
  text_from :: swappy_point
  text_to :: swappy_point
  text_mode :: swappy_text_mode

record swappy_paint_shape =
  shape_r :: real
  shape_g :: real
  shape_b :: real
  shape_a :: real
  shape_w :: real
  should_center_at_from :: bool
  shape_from :: swappy_point
  shape_to :: swappy_point
  shape_type :: swappy_paint_type
  shape_operation :: swappy_paint_shape_operation

record swappy_paint_brush =
  brush_r :: real
  brush_g :: real
  brush_b :: real
  brush_a :: real
  brush_w :: real
  brush_points :: "swappy_point list"

record swappy_paint_blur =
  blur_from :: swappy_point
  blur_to :: swappy_point
  blur_cached_surface :: "cairo_surface option"

text \<open>
  The union \<open>content\<close> of \<open>struct swappy_paint\<close> is modelled by its four members side by
  side: the code reads only the member that \<open>type\<close> selects.
\<close>

record swappy_paint =
  paint_type :: swappy_paint_type
  can_draw :: bool
  is_committed :: bool
  content_brush :: swappy_paint_brush
  content_shape :: swappy_paint_shape
  content_text :: swappy_paint_text
  content_blur :: swappy_paint_blur

record gdk_pixbuf =
  pixbuf_width :: int
  pixbuf_height :: int
  pixbuf_pixels :: "pixel list"

text \<open>
  The lists \<open>paints\<close> and \<open>redo_paints\<close> are \<open>GList\<close>s of pointers to paints and
  \<open>temp_paint\<close> is such a pointer or \<open>NULL\<close>: the model keeps the addresses and, in
  \<open>paint_heap\<close>, the paint stored at each address. Releasing memory is not modelled.
  Of the widgets the state keeps what the modelled functions set: the sensitivity of the
  undo and redo buttons, the size of the window and whether a redraw has been queued.
  \<open>blur_log\<close> is not a field of the C structure: it records, newest first, the paints for
  which \<open>blur_surface\<close> has been run.
\<close>

type_synonym addr = nat

record swappy_state =
  original_image :: gdk_pixbuf
  original_image_surface :: cairo_surface
  rendering_surface :: cairo_surface
  enhanced_surface :: "cairo_surface option"
  enhanced_preset_cache :: int
  upscaled_preview_surface :: "cairo_surface option"
  upscaled_preview_scale_x :: real
  upscaled_preview_scale_y :: real
  upscaled_preview_cache_valid :: bool
  upscaled_pixbuf_cache :: "gdk_pixbuf option"
  scaling_factor :: real
  zoom_level :: real
  pan_x :: real
  pan_y :: real
  mode :: swappy_paint_type
  window_width :: int
  window_height :: int
  paints :: "addr list"
  redo_paints :: "addr list"
  temp_paint :: "addr option"
  paint_heap :: "addr \<Rightarrow> swappy_paint"
  ui_undo_sensitive :: bool
  ui_redo_sensitive :: bool
  draw_queued :: bool
  blur_log :: "addr list"

subsection \<open>render.c\<close>

text \<open>
  Drawing goes through Cairo and Pango. What they rasterise is not part of the program,
  so each drawing procedure is a parameter: a function from the target surface to the
  target surface after the drawing. \<open>lib_paint_surface src x y\<close> is
  \<open>cairo_set_source_surface (cr, src, x, y)\<close> followed by \<open>cairo_paint (cr)\<close>; the other
  fields are the procedures of render.c that draw one annotation.
\<close>

record draw_lib =
  lib_paint_surface :: "cairo_surface \<Rightarrow> real \<Rightarrow> real \<Rightarrow> cairo_surface \<Rightarrow> cairo_surface"
  lib_paint_pixbuf :: "gdk_pixbuf \<Rightarrow> cairo_surface \<Rightarrow> cairo_surface"
  lib_render_shape_rectangle :: "swappy_paint_shape \<Rightarrow> cairo_surface \<Rightarrow> cairo_surface"
  lib_render_shape :: "swappy_paint_shape \<Rightarrow> cairo_surface \<Rightarrow> cairo_surface"
  lib_render_brush :: "swappy_paint_brush \<Rightarrow> cairo_surface \<Rightarrow> cairo_surface"
  lib_render_highlighter :: "swappy_paint_brush \<Rightarrow> cairo_surface \<Rightarrow> cairo_surface"
  lib_render_text :: "swappy_paint_text \<Rightarrow> cairo_surface \<Rightarrow> cairo_surface"
  lib_render_crop_overlay :: "swappy_paint_shape \<Rightarrow> int \<Rightarrow> int \<Rightarrow> cairo_surface \<Rightarrow> cairo_surface"

text \<open>
  \<open>blur_surface\<close>. \<open>surface_index stride bi bj\<close> is the index of
  \<open>((uint32_t *)(data + bi * stride))[bj]\<close>, \<open>block_cells\<close> lists the \<open>(bi, bj)\<close> that the two
  inner loops visit, \<open>average_color\<close> is the first pair of inner loops with the
  computation of \<open>avg_color\<close> (\<open>None\<close> when \<open>count\<close> is 0), \<open>fill_block\<close> the second pair.
  The loops over the blocks advance by \<open>scaled_block\<close>, which the caller makes at
  least 4; the functions stop when it is not positive, so that they are total.
\<close>

definition surface_index :: "int \<Rightarrow> int \<Rightarrow> int \<Rightarrow> nat" where
  "surface_index stride bi bj = nat (bi * stride div 4 + bj)"

definition block_cells :: "int \<Rightarrow> int \<Rightarrow> int \<Rightarrow> int \<Rightarrow> (int \<times> int) list" where
  "block_cells i j block_end_y block_end_x =
     concat (map (\<lambda>bi. map (\<lambda>bj. (bi, bj)) [j..block_end_x - 1]) [i..block_end_y - 1])"

definition average_color :: "pixel list \<Rightarrow> int \<Rightarrow> (int \<times> int) list \<Rightarrow> pixel option" where
  "average_color src_data src_stride cells =
     (let ps = map (\<lambda>(bi, bj). src_data ! surface_index src_stride bi bj) cells;
          sum_a = (\<Sum>p\<leftarrow>ps. unat (and (drop_bit 24 p) 255));
          sum_r = (\<Sum>p\<leftarrow>ps. unat (and (drop_bit 16 p) 255));
          sum_g = (\<Sum>p\<leftarrow>ps. unat (and (drop_bit 8 p) 255));
          sum_b = (\<Sum>p\<leftarrow>ps. unat (and p 255));
          count = length cells
      in if count > 0 then
           Some (or (push_bit 24 (word_of_nat (sum_a div count)))
                (or (push_bit 16 (word_of_nat (sum_r div count)))
                (or (push_bit 8 (word_of_nat (sum_g div count)))
                    (word_of_nat (sum_b div count)))))
         else None)"

definition fill_block :: "pixel list \<Rightarrow> int \<Rightarrow> (int \<times> int) list \<Rightarrow> pixel \<Rightarrow> pixel list" where
  "fill_block dst_data dst_stride cells avg_color =
     fold (\<lambda>(bi, bj) d. d[surface_index dst_stride bi bj := avg_color]) cells dst_data"

function blur_blocks_row ::
  "pixel list \<Rightarrow> int \<Rightarrow> int \<Rightarrow> int \<Rightarrow> int \<Rightarrow> int \<Rightarrow> int \<Rightarrow> int \<Rightarrow> pixel list \<Rightarrow> pixel list" where
  "blur_blocks_row src_data src_stride dst_stride end_x end_y scaled_block i j dst_data =
     (if j < end_x \<and> 0 < scaled_block then
        (let block_end_y = min (i + scaled_block) end_y;
             block_end_x = min (j + scaled_block) end_x;
             cells = block_cells i j block_end_y block_end_x;
             dst_data' = (case average_color src_data src_stride cells of
                            None \<Rightarrow> dst_data
                          | Some avg_color \<Rightarrow> fill_block dst_data dst_stride cells avg_color)
         in blur_blocks_row src_data src_stride dst_stride end_x end_y scaled_block i
              (j + scaled_block) dst_data')
      else dst_data)"
  by pat_completeness auto
termination
  by (relation "measure (\<lambda>(sd, ss, ds, ex, ey, sb, i, j, dd). nat (ex - j))") auto

function blur_blocks ::
  "pixel list \<Rightarrow> int \<Rightarrow> int \<Rightarrow> int \<Rightarrow> int \<Rightarrow> int \<Rightarrow> int \<Rightarrow> int \<Rightarrow> pixel list \<Rightarrow> pixel list" where
  "blur_blocks src_data src_stride dst_stride start_x end_x end_y scaled_block i dst_data =
     (if i < end_y \<and> 0 < scaled_block then
        blur_blocks src_data src_stride dst_stride start_x end_x end_y scaled_block
          (i + scaled_block)
          (blur_blocks_row src_data src_stride dst_stride end_x end_y scaled_block i start_x dst_data)
      else dst_data)"
  by pat_completeness auto
termination
  by (relation "measure (\<lambda>(sd, ss, ds, sx, ex, ey, sb, i, dd). nat (ey - i))") auto

text \<open>
  \<open>blur_surface\<close> in two parts: \<open>blur_pixelate\<close> is lines 59 to 115, which copy the surface
  to \<open>dest_surface\<close> and replace each block of the region by its average colour;
  \<open>blur_surface\<close> has the checks before them and the cut to the region after them.
\<close>

definition blur_pixelate ::
  "draw_lib \<Rightarrow> cairo_surface \<Rightarrow> real \<Rightarrow> real \<Rightarrow> real \<Rightarrow> real \<Rightarrow> cairo_surface \<Rightarrow> cairo_surface" where
  "blur_pixelate lib surface x y width height dest_surface0 =
     (let block_size = 12 :: int;
          scale_x = surf_scale_x surface;
          scale_y = surf_scale_y surface;
          src_stride = surf_stride surface;
          src_width = surf_width surface;
          src_height = surf_height surface;
          dest_surface1 = lib_paint_surface lib surface 0 0 dest_surface0;
          src_data = surf_data surface;
          dst_data = surf_data dest_surface1;
          dst_stride = surf_stride dest_surface1;
          start_x = CLAMP (c_int_of_double (x * scale_x)) 0 src_width;
          start_y = CLAMP (c_int_of_double (y * scale_y)) 0 src_height;
          end_x = CLAMP (c_int_of_double ((x + width) * scale_x)) 0 src_width;
          end_y = CLAMP (c_int_of_double ((y + height) * scale_y)) 0 src_height;
          scaled_block0 = c_int_of_double (real_of_int block_size * scale_x);
          scaled_block = (if scaled_block0 < 4 then 4 else scaled_block0)
      in dest_surface1
           \<lparr>surf_data := blur_blocks src_data src_stride dst_stride start_x end_x
                           end_y scaled_block start_y dst_data\<rparr>)"

definition blur_surface ::
  "draw_lib \<Rightarrow> cairo_surface \<Rightarrow> real \<Rightarrow> real \<Rightarrow> real \<Rightarrow> real \<Rightarrow> cairo_surface option" where
  "blur_surface lib surface x y width height =
     (if surf_error surface then None
      else
        (let scale_x = surf_scale_x surface;
             scale_y = surf_scale_y surface;
             src_format = surf_format surface
         in if src_format \<noteq> CAIRO_FORMAT_RGB24 \<and> src_format \<noteq> CAIRO_FORMAT_ARGB32 then None
            else
              (let src_width = surf_width surface;
                   src_height = surf_height surface;
                   dest_surface0 = (cairo_image_surface_create src_format src_width src_height)
                     \<lparr>surf_scale_x := scale_x, surf_scale_y := scale_y\<rparr>
               in if surf_error dest_surface0 then None
                  else
                    (let dest_surface = blur_pixelate lib surface x y width height dest_surface0;
                         final0 = cairo_image_surface_create src_format
                                    (c_int_of_double (width * scale_x))
                                    (c_int_of_double (height * scale_y))
                     in if surf_error final0 then None
                        else Some (lib_paint_surface lib dest_surface (- x) (- y)
                                     (final0\<lparr>surf_scale_x := scale_x, surf_scale_y := scale_y\<rparr>))))))"

definition blur_placeholder :: "swappy_paint_blur \<Rightarrow> swappy_paint_shape" where
  "blur_placeholder blur =
     \<lparr>shape_r = 0, shape_g = 0.5, shape_b = 1, shape_a = 0.5, shape_w = 5,
      should_center_at_from = False, shape_from = blur_from blur, shape_to = blur_to blur,
      shape_type = SWAPPY_PAINT_MODE_RECTANGLE,
      shape_operation = SWAPPY_PAINT_SHAPE_OPERATION_FILL\<rparr>"

definition render_blur :: "draw_lib \<Rightarrow> addr \<Rightarrow> swappy_state \<Rightarrow> swappy_state" where
  "render_blur lib paint s =
     (let blur = content_blur (paint_heap s paint);
          target = rendering_surface s;
          x = min (point_x (blur_from blur)) (point_x (blur_to blur));
          y = min (point_y (blur_from blur)) (point_y (blur_to blur));
          w = \<bar>point_x (blur_from blur) - point_x (blur_to blur)\<bar>;
          h = \<bar>point_y (blur_from blur) - point_y (blur_to blur)\<bar>
      in if is_committed (paint_heap s paint) then
           (case blur_cached_surface blur of
              Some surface \<Rightarrow>
                if \<not> surf_error surface
                then s\<lparr>rendering_surface := lib_paint_surface lib surface x y target\<rparr>
                else s
            | None \<Rightarrow>
                (let s' = s\<lparr>blur_log := paint # blur_log s\<rparr> in
                 case blur_surface lib target x y w h of
                   Some blurred \<Rightarrow>
                     if \<not> surf_error blurred
                     then s'\<lparr>rendering_surface := lib_paint_surface lib blurred x y target,
                             paint_heap := (paint_heap s)
                               (paint := (paint_heap s paint)
                                  \<lparr>content_blur := blur\<lparr>blur_cached_surface := Some blurred\<rparr>\<rparr>)\<rparr>
                     else s'
                 | None \<Rightarrow> s'))
         else s\<lparr>rendering_surface := lib_render_shape_rectangle lib (blur_placeholder blur) target\<rparr>)"

definition clear_surface :: "cairo_surface \<Rightarrow> cairo_surface" where
  "clear_surface target = target\<lparr>surf_data := replicate (length (surf_data target)) 0\<rparr>"

definition render_image :: "draw_lib \<Rightarrow> swappy_state \<Rightarrow> swappy_state" where
  "render_image lib s =
     (let surface = original_image_surface s in
      if \<not> surf_error surface
      then s\<lparr>rendering_surface := lib_paint_surface lib surface 0 0 (rendering_surface s)\<rparr>
      else s)"

definition render_paint :: "draw_lib \<Rightarrow> addr \<Rightarrow> swappy_state \<Rightarrow> swappy_state" where
  "render_paint lib paint s =
     (let p = paint_heap s paint; target = rendering_surface s in
      if \<not> can_draw p then s
      else case paint_type p of
          SWAPPY_PAINT_MODE_BLUR \<Rightarrow> render_blur lib paint s
        | SWAPPY_PAINT_MODE_BRUSH \<Rightarrow>
            s\<lparr>rendering_surface := lib_render_brush lib (content_brush p) target\<rparr>
        | SWAPPY_PAINT_MODE_HIGHLIGHTER \<Rightarrow>
            s\<lparr>rendering_surface := lib_render_highlighter lib (content_brush p) target\<rparr>
        | SWAPPY_PAINT_MODE_RECTANGLE \<Rightarrow>
            s\<lparr>rendering_surface := lib_render_shape lib (content_shape p) target\<rparr>
        | SWAPPY_PAINT_MODE_ELLIPSE \<Rightarrow>
            s\<lparr>rendering_surface := lib_render_shape lib (content_shape p) target\<rparr>
        | SWAPPY_PAINT_MODE_ARROW \<Rightarrow>
            s\<lparr>rendering_surface := lib_render_shape lib (content_shape p) target\<rparr>
        | SWAPPY_PAINT_MODE_LINE \<Rightarrow>
            s\<lparr>rendering_surface := lib_render_shape lib (content_shape p) target\<rparr>
        | SWAPPY_PAINT_MODE_TEXT \<Rightarrow>
            s\<lparr>rendering_surface := lib_render_text lib (content_text p) target\<rparr>
        | SWAPPY_PAINT_MODE_CROP \<Rightarrow>
            s\<lparr>rendering_surface := lib_render_crop_overlay lib (content_shape p)
                 (pixbuf_width (original_image s)) (pixbuf_height (original_image s)) target\<rparr>
        | SWAPPY_PAINT_MODE_PAN \<Rightarrow> s)"

definition render_paints :: "draw_lib \<Rightarrow> swappy_state \<Rightarrow> swappy_state" where
  "render_paints lib s =
     (let s' = fold (render_paint lib) (rev (paints s)) s in
      case temp_paint s' of
        Some paint \<Rightarrow> render_paint lib paint s'
      | None \<Rightarrow> s')"

definition render_state :: "draw_lib \<Rightarrow> swappy_state \<Rightarrow> swappy_state" where
  "render_state lib s =
     (let s1 = s\<lparr>rendering_surface := clear_surface (rendering_surface s)\<rparr>;
          s2 = render_image lib s1;
          s3 = render_paints lib s2
      in s3\<lparr>enhanced_surface := None,
            enhanced_preset_cache := - 1,
            upscaled_preview_surface := None,
            upscaled_pixbuf_cache := None,
            upscaled_preview_scale_x := 1,
            upscaled_preview_scale_y := 1,
            upscaled_preview_cache_valid := False,
            draw_queued := True\<rparr>)"


subsection \<open>application.c: undo, redo and commit\<close>

definition update_ui_undo_redo :: "swappy_state \<Rightarrow> swappy_state" where
  "update_ui_undo_redo s =
     s\<lparr>ui_undo_sensitive := (length (paints s) > 0),
       ui_redo_sensitive := (length (redo_paints s) > 0)\<rparr>"

text \<open>
  \<open>g_list_remove_link (list, first)\<close> with \<open>first\<close> the head of the list leaves its tail, and
  \<open>g_list_prepend\<close> puts an element in front.
\<close>

definition action_undo :: "draw_lib \<Rightarrow> swappy_state \<Rightarrow> swappy_state" where
  "action_undo lib s =
     (case paints s of
        [] \<Rightarrow> s
      | first # rest \<Rightarrow>
          update_ui_undo_redo
            (render_state lib (s\<lparr>paints := rest, redo_paints := first # redo_paints s\<rparr>)))"

definition action_redo :: "draw_lib \<Rightarrow> swappy_state \<Rightarrow> swappy_state" where
  "action_redo lib s =
     (case redo_paints s of
        [] \<Rightarrow> s
      | first # rest \<Rightarrow>
          update_ui_undo_redo
            (render_state lib (s\<lparr>redo_paints := rest, paints := first # paints s\<rparr>)))"

text \<open>
  Modelled from the spec: \<open>paint_commit_temporary\<close> of paint.c, which is not among the
  sources. The specification: committing requires \<open>can_draw\<close>; it moves the pending
  annotation to the head of the committed list, where it is committed (\<open>is_committed\<close> is
  true once finalized), and a pending annotation that cannot be drawn is discarded, the
  committed list unchanged and the pending slot empty.
\<close>

definition paint_commit_temporary :: "swappy_state \<Rightarrow> swappy_state" where
  "paint_commit_temporary s =
     (case temp_paint s of
        None \<Rightarrow> s
      | Some paint \<Rightarrow>
          if can_draw (paint_heap s paint)
          then s\<lparr>paint_heap := (paint_heap s)(paint := (paint_heap s paint)\<lparr>is_committed := True\<rparr>),
                 paints := paint # paints s,
                 temp_paint := None\<rparr>
          else s\<lparr>temp_paint := None\<rparr>)"

text \<open>
  Modelled from the spec: \<open>paint_free_list\<close> of paint.c, which is not among the sources.
  The specification: a commit clears the redo list, and clearing a list releases every
  annotation in it; \<open>paint_free_list (&list)\<close> leaves \<open>list\<close> empty.
\<close>

definition paint_free_list :: "addr list \<Rightarrow> addr list" where
  "paint_free_list list = []"

definition commit_state :: "draw_lib \<Rightarrow> swappy_state \<Rightarrow> swappy_state" where
  "commit_state lib s =
     (let s1 = paint_commit_temporary s;
          s2 = s1\<lparr>redo_paints := paint_free_list (redo_paints s1)\<rparr>
      in update_ui_undo_redo (render_state lib s2))"

subsection \<open>application.c: coordinates and zoom\<close>

definition screen_coordinates_to_image_coordinates ::
  "swappy_state \<Rightarrow> real \<Rightarrow> real \<Rightarrow> real \<times> real" where
  "screen_coordinates_to_image_coordinates s screen_x screen_y =
     (let w = pixbuf_width (original_image s);
          h = pixbuf_height (original_image s);
          adjusted_x = (screen_x - pan_x s) / (scaling_factor s * zoom_level s);
          adjusted_y = (screen_y - pan_y s) / (scaling_factor s * zoom_level s)
      in (CLAMP adjusted_x 0 (real_of_int w), CLAMP adjusted_y 0 (real_of_int h)))"

datatype GdkScrollDirection =
  GDK_SCROLL_UP | GDK_SCROLL_DOWN | GDK_SCROLL_LEFT | GDK_SCROLL_RIGHT | GDK_SCROLL_SMOOTH

text \<open>
  The branch of \<open>draw_area_scroll_handler\<close> that is taken when Shift is not held (lines 1222
  to 1247), for the direction that the lines above it have settled on and the pointer
  position \<open>(mouse_x, mouse_y)\<close> of the event.
\<close>

definition draw_area_scroll_handler_zoom ::
  "GdkScrollDirection \<Rightarrow> real \<Rightarrow> real \<Rightarrow> swappy_state \<Rightarrow> swappy_state" where
  "draw_area_scroll_handler_zoom direction mouse_x mouse_y s =
     (let zoom_factor = 1.1 :: real;
          old_zoom = zoom_level s;
          s1 = (if direction = GDK_SCROLL_UP then
                  (let s' = s\<lparr>zoom_level := zoom_level s * zoom_factor\<rparr>
                   in if zoom_level s' > 10.0 then s'\<lparr>zoom_level := 10.0\<rparr> else s')
                else if direction = GDK_SCROLL_DOWN then
                  (let s' = s\<lparr>zoom_level := zoom_level s / zoom_factor\<rparr>
                   in if zoom_level s' < 0.1 then s'\<lparr>zoom_level := 0.1\<rparr> else s')
                else s)
      in if zoom_level s1 \<noteq> old_zoom then
           (let zoom_ratio = zoom_level s1 / old_zoom
            in s1\<lparr>pan_x := mouse_x - (mouse_x - pan_x s1) * zoom_ratio,
                  pan_y := mouse_y - (mouse_y - pan_y s1) * zoom_ratio,
                  draw_queued := True\<rparr>)
         else s1)"

subsection \<open>application.c: drawing the canvas\<close>





subsection \<open>application.c: applying a crop\<close>

text \<open>
  \<open>gdk_pixbuf_new_subpixbuf\<close> and \<open>gdk_pixbuf_copy\<close> after GdkPixbuf's documentation: the
  sub-image of a rectangle that lies inside of the image and is not empty, else \<open>NULL\<close>;
  a copy (running out of memory is not modelled).
\<close>

definition gdk_pixbuf_new_subpixbuf ::
  "gdk_pixbuf \<Rightarrow> int \<Rightarrow> int \<Rightarrow> int \<Rightarrow> int \<Rightarrow> gdk_pixbuf option" where
  "gdk_pixbuf_new_subpixbuf src_pixbuf src_x src_y width height =
     (if src_x \<ge> 0 \<and> src_x + width \<le> pixbuf_width src_pixbuf \<and>
         src_y \<ge> 0 \<and> src_y + height \<le> pixbuf_height src_pixbuf \<and> width > 0 \<and> height > 0
      then Some \<lparr>pixbuf_width = width, pixbuf_height = height,
                 pixbuf_pixels = concat (map (\<lambda>row.
                     take (nat width)
                       (drop (nat (row * pixbuf_width src_pixbuf + src_x)) (pixbuf_pixels src_pixbuf)))
                   [src_y..src_y + height - 1])\<rparr>
      else None)"

definition gdk_pixbuf_copy :: "gdk_pixbuf \<Rightarrow> gdk_pixbuf option" where
  "gdk_pixbuf_copy pixbuf = Some pixbuf"

definition pixbuf_scale_surface_from_widget :: "draw_lib \<Rightarrow> swappy_state \<Rightarrow> swappy_state" where
  "pixbuf_scale_surface_from_widget lib s =
     (let image = original_image s;
          format = CAIRO_FORMAT_ARGB32;
          image_width = pixbuf_width image;
          image_height = pixbuf_height image;
          original_image_surface' =
            lib_paint_pixbuf lib image (cairo_image_surface_create format image_width image_height);
          rendering_surface' = cairo_image_surface_create format image_width image_height
      in s\<lparr>original_image_surface := original_image_surface',
            rendering_surface := rendering_surface'\<rparr>)"

text \<open>
  \<open>compute_window_size_and_scaling_factor\<close>, for the work area of the monitor that GDK
  reports (the program asserts that its width and height are positive).
\<close>

definition compute_window_size_and_scaling_factor ::
  "int \<Rightarrow> int \<Rightarrow> swappy_state \<Rightarrow> swappy_state" where
  "compute_window_size_and_scaling_factor workarea_width workarea_height s =
     (let threshold = 0.75 :: real;
          image_width = pixbuf_width (original_image s);
          image_height = pixbuf_height (original_image s);
          max_width = c_int_of_double (real_of_int workarea_width * threshold);
          max_height = c_int_of_double (real_of_int workarea_height * threshold);
          scaling_factor_width = real_of_int max_width / real_of_int image_width;
          scaling_factor_height = real_of_int max_height / real_of_int image_height;
          scaled = scaling_factor_height < 1.0 \<or> scaling_factor_width < 1.0;
          scaling_factor' = (if scaled then min scaling_factor_width scaling_factor_height else 1.0);
          scaled_width = (if scaled then c_int_of_double (real_of_int image_width * scaling_factor')
                          else image_width);
          scaled_height = (if scaled then c_int_of_double (real_of_int image_height * scaling_factor')
                           else image_height)
      in s\<lparr>scaling_factor := scaling_factor',
            zoom_level := 1.0,
            pan_x := 0.0,
            pan_y := 0.0,
            window_width := scaled_width,
            window_height := scaled_height\<rparr>)"

text \<open>
  \<open>action_apply_crop\<close>, in three parts: the crop rectangle of lines 99 to 110, resolved
  from \<open>from\<close> and \<open>to\<close>; its clamping to the image in lines 116 to 119; and the function
  itself, whose last branch replaces the image (lines 158 to 185). \<open>paint_free\<close> releases
  the memory of a paint, which the model does not follow; discarding the pending
  annotation is \<open>temp_paint\<close> becoming \<open>NULL\<close>.
\<close>

definition crop_resolved :: "swappy_paint_shape \<Rightarrow> real \<times> real \<times> real \<times> real" where
  "crop_resolved shape =
     (let from_x = point_x (shape_from shape); from_y = point_y (shape_from shape);
          to_x = point_x (shape_to shape); to_y = point_y (shape_to shape)
      in if should_center_at_from shape
         then (from_x - \<bar>from_x - to_x\<bar>, from_y - \<bar>from_y - to_y\<bar>,
               \<bar>from_x - to_x\<bar> * 2, \<bar>from_y - to_y\<bar> * 2)
         else (min from_x to_x, min from_y to_y, \<bar>from_x - to_x\<bar>, \<bar>from_y - to_y\<bar>))"

definition crop_clamped :: "swappy_paint_shape \<Rightarrow> int \<Rightarrow> int \<Rightarrow> real \<times> real \<times> real \<times> real" where
  "crop_clamped shape image_width image_height =
     (case crop_resolved shape of (x0, y0, w0, h0) \<Rightarrow>
        (let x = (if x0 < 0 then 0 else x0);
             y = (if y0 < 0 then 0 else y0);
             w = (if x + w0 > real_of_int image_width then real_of_int image_width - x else w0);
             h = (if y + h0 > real_of_int image_height then real_of_int image_height - y else h0)
         in (x, y, w, h)))"

definition crop_replace_image ::
  "draw_lib \<Rightarrow> int \<Rightarrow> int \<Rightarrow> gdk_pixbuf \<Rightarrow> swappy_state \<Rightarrow> swappy_state" where
  "crop_replace_image lib workarea_width workarea_height cropped_copy s =
     (let s1 = s\<lparr>original_image := cropped_copy\<rparr>;
          s2 = s1\<lparr>paints := paint_free_list (paints s1),
                  redo_paints := paint_free_list (redo_paints s1)\<rparr>;
          s3 = pixbuf_scale_surface_from_widget lib s2;
          s4 = compute_window_size_and_scaling_factor workarea_width workarea_height s3;
          s5 = s4\<lparr>temp_paint := None\<rparr>;
          s6 = s5\<lparr>zoom_level := 1.0, pan_x := 0.0, pan_y := 0.0\<rparr>;
          s7 = render_state lib s6
      in s7\<lparr>draw_queued := True\<rparr>)"

definition action_apply_crop :: "draw_lib \<Rightarrow> int \<Rightarrow> int \<Rightarrow> swappy_state \<Rightarrow> swappy_state" where
  "action_apply_crop lib workarea_width workarea_height s =
     (case temp_paint s of
        None \<Rightarrow> s
      | Some paint \<Rightarrow>
          if paint_type (paint_heap s paint) \<noteq> SWAPPY_PAINT_MODE_CROP
             \<or> \<not> can_draw (paint_heap s paint) then s
          else
            (case crop_clamped (content_shape (paint_heap s paint))
                    (pixbuf_width (original_image s)) (pixbuf_height (original_image s)) of
               (x, y, w, h) \<Rightarrow>
                 if w \<le> 0 \<or> h \<le> 0 then s\<lparr>temp_paint := None\<rparr>
                 else
                   (case gdk_pixbuf_new_subpixbuf (original_image s)
                           (c_int_of_double x) (c_int_of_double y)
                           (c_int_of_double w) (c_int_of_double h) of
                      None \<Rightarrow> s\<lparr>temp_paint := None\<rparr>
                    | Some cropped \<Rightarrow>
                        (case gdk_pixbuf_copy cropped of
                           None \<Rightarrow> s\<lparr>temp_paint := None\<rparr>
                         | Some cropped_copy \<Rightarrow>
                             crop_replace_image lib workarea_width workarea_height
                               cropped_copy s))))"

subsection \<open>Reading the result: annotations up to the blur cache\<close>

text \<open>
  Rendering changes a stored annotation in one way only: it fills the cache of a committed
  blur that has none. \<open>cache_fill p q\<close> says that \<open>q\<close> is \<open>p\<close>, or \<open>p\<close> with its empty cache
  filled; \<open>without_cache\<close> forgets the cache.
\<close>


definition cache_fill :: "swappy_paint \<Rightarrow> swappy_paint \<Rightarrow> bool" where
  "cache_fill p q =
     (q = p \<or> (blur_cached_surface (content_blur p) = None \<and>
        (\<exists>b. q = p\<lparr>content_blur := (content_blur p)\<lparr>blur_cached_surface := Some b\<rparr>\<rparr>)))"

definition without_cache :: "swappy_paint \<Rightarrow> swappy_paint" where
  "without_cache p = p\<lparr>content_blur := (content_blur p)\<lparr>blur_cached_surface := None\<rparr>\<rparr>"

text \<open>The crop rectangle of a pending crop, clamped to the image, has no area.\<close>

definition crop_is_empty :: "swappy_state \<Rightarrow> addr \<Rightarrow> bool" where
  "crop_is_empty s a =
     (case crop_clamped (content_shape (paint_heap s a))
             (pixbuf_width (original_image s)) (pixbuf_height (original_image s)) of
        (x, y, w, h) \<Rightarrow> w \<le> 0 \<or> h \<le> 0)"











subsection \<open>A session for the examples\<close>

text \<open>
  A drawing library whose procedures leave the target as it is, a drawable rectangle from
  \<open>(0, 0)\<close> to \<open>(2, 2)\<close>, a drawable crop selection without extent, and a session on a
  4x4 image with no annotation, at zoom 1.
\<close>

definition plain_lib :: draw_lib where
  "plain_lib =
     \<lparr>lib_paint_surface = (\<lambda>src x y target. target),
      lib_paint_pixbuf = (\<lambda>pixbuf target. target),
      lib_render_shape_rectangle = (\<lambda>shape target. target),
      lib_render_shape = (\<lambda>shape target. target),
      lib_render_brush = (\<lambda>brush target. target),
      lib_render_highlighter = (\<lambda>brush target. target),
      lib_render_text = (\<lambda>text target. target),
      lib_render_crop_overlay = (\<lambda>shape image_width image_height target. target)\<rparr>"

definition blank_paint :: swappy_paint where
  "blank_paint =
     \<lparr>paint_type = SWAPPY_PAINT_MODE_RECTANGLE, can_draw = True, is_committed = False,
      content_brush = \<lparr>brush_r = 0, brush_g = 0, brush_b = 0, brush_a = 1, brush_w = 1,
                        brush_points = []\<rparr>,
      content_shape = \<lparr>shape_r = 1, shape_g = 0, shape_b = 0, shape_a = 1, shape_w = 2,
                        should_center_at_from = False,
                        shape_from = \<lparr>point_x = 0, point_y = 0\<rparr>,
                        shape_to = \<lparr>point_x = 2, point_y = 2\<rparr>,
                        shape_type = SWAPPY_PAINT_MODE_RECTANGLE,
                        shape_operation = SWAPPY_PAINT_SHAPE_OPERATION_STROKE\<rparr>,
      content_text = \<lparr>text_r = 0, text_g = 0, text_b = 0, text_a = 1, text_s = 10,
                       text_font = [], text_text = [], text_cursor = 0,
                       text_from = \<lparr>point_x = 0, point_y = 0\<rparr>,
                       text_to = \<lparr>point_x = 0, point_y = 0\<rparr>,
                       text_mode = SWAPPY_TEXT_MODE_EDIT\<rparr>,
      content_blur = \<lparr>blur_from = \<lparr>point_x = 0, point_y = 0\<rparr>,
                       blur_to = \<lparr>point_x = 2, point_y = 2\<rparr>,
                       blur_cached_surface = None\<rparr>\<rparr>"

definition blank_state :: swappy_state where
  "blank_state =
     \<lparr>original_image = \<lparr>pixbuf_width = 4, pixbuf_height = 4, pixbuf_pixels = replicate 16 0\<rparr>,
      original_image_surface = cairo_image_surface_create CAIRO_FORMAT_ARGB32 4 4,
      rendering_surface = cairo_image_surface_create CAIRO_FORMAT_ARGB32 4 4,
      enhanced_surface = None,
      enhanced_preset_cache = - 1,
      upscaled_preview_surface = None,
      upscaled_preview_scale_x = 1,
      upscaled_preview_scale_y = 1,
      upscaled_preview_cache_valid = False,
      upscaled_pixbuf_cache = None,
      scaling_factor = 1,
      zoom_level = 1,
      pan_x = 0,
      pan_y = 0,
      mode = SWAPPY_PAINT_MODE_RECTANGLE,
      window_width = 4,
      window_height = 4,
      paints = [],
      redo_paints = [],
      temp_paint = None,
      paint_heap = (\<lambda>a. blank_paint),
      ui_undo_sensitive = False,
      ui_redo_sensitive = False,
      draw_queued = False,
      blur_log = []\<rparr>"

definition empty_crop :: swappy_paint where
  "empty_crop = blank_paint
     \<lparr>paint_type := SWAPPY_PAINT_MODE_CROP,
      content_shape := (content_shape blank_paint)\<lparr>shape_to := \<lparr>point_x = 0, point_y = 0\<rparr>\<rparr>\<rparr>"


section \<open>The 2x pass computes the EPX rule\<close>

lemma cell_bound:
  fixes x y w h :: int
  assumes "0 \<le> x" "x < w" "0 \<le> y" "y < h"
  shows "0 \<le> y * w + x" "y * w + x < w * h"
proof -
  show "0 \<le> y * w + x" using assms by simp
  have "y + 1 \<le> h" using assms by simp
  then have "(y + 1) * w \<le> h * w" using assms by (intro mult_right_mono) auto
  then show "y * w + x < w * h" using assms by (simp add: algebra_simps)
qed

lemma cell_lt:
  fixes x y x' y' w :: int
  assumes "x < w" "0 \<le> x'" "y < y'" "0 \<le> w"
  shows "y * w + x < y' * w + x'"
proof -
  have "y + 1 \<le> y'" using assms by simp
  then have "(y + 1) * w \<le> y' * w" using assms by (intro mult_right_mono) auto
  then show ?thesis using assms by (simp add: algebra_simps)
qed

lemma cell_inj:
  fixes x y x' y' w :: int
  assumes "0 \<le> x" "x < w" "0 \<le> x'" "x' < w" "y * w + x = y' * w + x'"
  shows "y = y' \<and> x = x'"
proof -
  have w: "0 \<le> w" using assms by simp
  have "\<not> y < y'" using cell_lt[of x w x' y y'] assms w by auto
  moreover have "\<not> y' < y" using cell_lt[of x' w x y' y] assms w by auto
  ultimately have "y = y'" by simp
  then show ?thesis using assms by simp
qed


lemma wr_Some: "0 \<le> i \<Longrightarrow> i < int (length buf) \<Longrightarrow> wr buf i v = Some (buf[nat i := v])"
  by (simp add: wr_def)

lemma scale2x_pixel_eq:
  assumes x: "0 \<le> x" "x < w" and y: "0 \<le> y" "y < h"
    and ls: "int (length src) = w * h" and ld: "int (length dst) = (w * 2) * (h * 2)"
  shows "scale2x_pixel src w h y x dst =
     Some (dst[nat (y * 2 * (w * 2) + x * 2) := epx_at src w h (x * 2) (y * 2),
               nat (y * 2 * (w * 2) + (x * 2 + 1)) := epx_at src w h (x * 2 + 1) (y * 2),
               nat ((y * 2 + 1) * (w * 2) + x * 2) := epx_at src w h (x * 2) (y * 2 + 1),
               nat ((y * 2 + 1) * (w * 2) + (x * 2 + 1)) := epx_at src w h (x * 2 + 1) (y * 2 + 1)])"
proof -
  have rP: "rd src (y * w + x) = Some (pixel_at src w x y)"
    using cell_bound[OF x y] ls by (simp add: rd_def pixel_at_def)
  have rA: "y > 0 \<Longrightarrow> rd src ((y - 1) * w + x) = Some (pixel_at src w x (y - 1))"
    using cell_bound[OF x, of "y - 1" h] y ls by (simp add: rd_def pixel_at_def)
  have rD: "y < h - 1 \<Longrightarrow> rd src ((y + 1) * w + x) = Some (pixel_at src w x (y + 1))"
    using cell_bound[OF x, of "y + 1" h] y ls by (simp add: rd_def pixel_at_def)
  have rB: "x < w - 1 \<Longrightarrow> rd src (y * w + x + 1) = Some (pixel_at src w (x + 1) y)"
    using cell_bound[of "x + 1" w y h] x y ls by (simp add: rd_def pixel_at_def add.assoc)
  have rC: "x > 0 \<Longrightarrow> rd src (y * w + x - 1) = Some (pixel_at src w (x - 1) y)"
    using cell_bound[of "x - 1" w y h] x y ls by (simp add: rd_def pixel_at_def diff_add_eq add_diff_eq)
  have X: "0 \<le> x * 2" "x * 2 < w * 2" "0 \<le> x * 2 + 1" "x * 2 + 1 < w * 2" using x by auto
  have Y: "0 \<le> y * 2" "y * 2 < h * 2" "0 \<le> y * 2 + 1" "y * 2 + 1 < h * 2" using y by auto
  note b = cell_bound[OF X(1,2) Y(1,2)] cell_bound[OF X(3,4) Y(1,2)]
           cell_bound[OF X(1,2) Y(3,4)] cell_bound[OF X(3,4) Y(3,4)]
  have w1: "\<And>d v. length d = length dst \<Longrightarrow>
      wr d (y * 2 * (w * 2) + x * 2) v = Some (d[nat (y * 2 * (w * 2) + x * 2) := v])"
    using b ld by (intro wr_Some) auto
  have w2: "\<And>d v. length d = length dst \<Longrightarrow>
      wr d (y * 2 * (w * 2) + x * 2 + 1) v = Some (d[nat (y * 2 * (w * 2) + (x * 2 + 1)) := v])"
    using b ld by (simp add: wr_def add.assoc)
  have w3: "\<And>d v. length d = length dst \<Longrightarrow>
      wr d ((y * 2 + 1) * (w * 2) + x * 2) v = Some (d[nat ((y * 2 + 1) * (w * 2) + x * 2) := v])"
    using b ld by (intro wr_Some) auto
  have w4: "\<And>d v. length d = length dst \<Longrightarrow>
      wr d ((y * 2 + 1) * (w * 2) + x * 2 + 1) v = Some (d[nat ((y * 2 + 1) * (w * 2) + (x * 2 + 1)) := v])"
    using b ld by (simp add: wr_def add.assoc)
  have A_eq: "(if y > 0 then rd src ((y - 1) * w + x) else Some (pixel_at src w x y)) = Some (nb_up src w h x y)"
    by (simp add: nb_up_def rA)
  have B_eq: "(if x < w - 1 then rd src (y * w + x + 1) else Some (pixel_at src w x y)) = Some (nb_right src w h x y)"
    by (simp add: nb_right_def rB)
  have C_eq: "(if x > 0 then rd src (y * w + x - 1) else Some (pixel_at src w x y)) = Some (nb_left src w h x y)"
    by (simp add: nb_left_def rC)
  have D_eq: "(if y < h - 1 then rd src ((y + 1) * w + x) else Some (pixel_at src w x y)) = Some (nb_down src w h x y)"
    by (simp add: nb_down_def rD)
  have e: "epx_at src w h (x * 2) (y * 2) = epx_tl (pixel_at src w x y) (nb_up src w h x y)
              (nb_right src w h x y) (nb_left src w h x y) (nb_down src w h x y)"
    "epx_at src w h (x * 2 + 1) (y * 2) = epx_tr (pixel_at src w x y) (nb_up src w h x y)
              (nb_right src w h x y) (nb_left src w h x y) (nb_down src w h x y)"
    "epx_at src w h (x * 2) (y * 2 + 1) = epx_bl (pixel_at src w x y) (nb_up src w h x y)
              (nb_right src w h x y) (nb_left src w h x y) (nb_down src w h x y)"
    "epx_at src w h (x * 2 + 1) (y * 2 + 1) = epx_br (pixel_at src w x y) (nb_up src w h x y)
              (nb_right src w h x y) (nb_left src w h x y) (nb_down src w h x y)"
    by (simp_all add: epx_at_def Let_def)
  let ?P = "pixel_at src w x y" and ?A = "nb_up src w h x y" and ?B = "nb_right src w h x y"
    and ?C = "nb_left src w h x y" and ?D = "nb_down src w h x y"
  have v: "(if pixels_equal ?C ?A \<and> \<not> pixels_equal ?C ?D \<and> \<not> pixels_equal ?A ?B then ?A else ?P) = epx_tl ?P ?A ?B ?C ?D"
    "(if pixels_equal ?A ?B \<and> \<not> pixels_equal ?A ?C \<and> \<not> pixels_equal ?B ?D then ?B else ?P) = epx_tr ?P ?A ?B ?C ?D"
    "(if pixels_equal ?D ?C \<and> \<not> pixels_equal ?D ?B \<and> \<not> pixels_equal ?A ?C then ?C else ?P) = epx_bl ?P ?A ?B ?C ?D"
    "(if pixels_equal ?B ?D \<and> \<not> pixels_equal ?B ?A \<and> \<not> pixels_equal ?D ?C then ?D else ?P) = epx_br ?P ?A ?B ?C ?D"
    by (auto simp: pixels_equal_def epx_tl_def epx_tr_def epx_bl_def epx_br_def)
  show ?thesis
    unfolding scale2x_pixel_def Let_def e
    by (simp only: rP A_eq B_eq C_eq D_eq Option.bind.simps v w1 w2 w3 w4 length_list_update)
qed


lemma cell_nat_eq_iff:
  fixes X Y X' Y' W :: int
  assumes "0 \<le> X" "X < W" "0 \<le> X'" "X' < W" "0 \<le> Y" "0 \<le> Y'"
  shows "(nat (Y * W + X) = nat (Y' * W + X')) = (Y = Y' \<and> X = X')"
proof -
  have "0 \<le> Y * W + X" "0 \<le> Y' * W + X'" using assms by auto
  then have "(nat (Y * W + X) = nat (Y' * W + X')) = (Y * W + X = Y' * W + X')" by auto
  also have "\<dots> = (Y = Y' \<and> X = X')" using cell_inj[OF assms(1-4)] by auto
  finally show ?thesis .
qed

lemma nth_upd_if: "j < length xs \<Longrightarrow> xs[i := v] ! j = (if i = j then v else xs ! j)"
  by (cases "i = j") simp_all

lemma block_iff:
  fixes X Y x y :: int
  shows "(X div 2 = x \<and> Y div 2 = y) =
     ((X = x * 2 \<or> X = x * 2 + 1) \<and> (Y = y * 2 \<or> Y = y * 2 + 1))"
  by presburger

lemma scale2x_pixel_nth:
  assumes x: "0 \<le> x" "x < w" and y: "0 \<le> y" "y < h"
    and ls: "int (length src) = w * h" and ld: "int (length dst) = (w * 2) * (h * 2)"
  shows "\<exists>out. scale2x_pixel src w h y x dst = Some out \<and> length out = length dst \<and>
     (\<forall>X Y. 0 \<le> X \<and> X < w * 2 \<and> 0 \<le> Y \<and> Y < h * 2 \<longrightarrow>
        out ! nat (Y * (w * 2) + X) =
          (if X div 2 = x \<and> Y div 2 = y then epx_at src w h X Y else dst ! nat (Y * (w * 2) + X)))"
proof -
  let ?out = "dst[nat (y * 2 * (w * 2) + x * 2) := epx_at src w h (x * 2) (y * 2),
               nat (y * 2 * (w * 2) + (x * 2 + 1)) := epx_at src w h (x * 2 + 1) (y * 2),
               nat ((y * 2 + 1) * (w * 2) + x * 2) := epx_at src w h (x * 2) (y * 2 + 1),
               nat ((y * 2 + 1) * (w * 2) + (x * 2 + 1)) := epx_at src w h (x * 2 + 1) (y * 2 + 1)]"
  have eq: "scale2x_pixel src w h y x dst = Some ?out"
    by (rule scale2x_pixel_eq[OF x y ls ld])
  have nth: "?out ! nat (Y * (w * 2) + X) =
          (if X div 2 = x \<and> Y div 2 = y then epx_at src w h X Y else dst ! nat (Y * (w * 2) + X))"
    if XY: "0 \<le> X" "X < w * 2" "0 \<le> Y" "Y < h * 2" for X Y
  proof -
    have Xs: "0 \<le> x * 2" "x * 2 < w * 2" "0 \<le> x * 2 + 1" "x * 2 + 1 < w * 2" using x by auto
    have Ys: "0 \<le> y * 2" "0 \<le> y * 2 + 1" using y by auto
    have i: "0 \<le> Y * (w * 2) + X" "Y * (w * 2) + X < (w * 2) * (h * 2)"
      using cell_bound[OF XY] by auto
    then have lt: "nat (Y * (w * 2) + X) < length dst" using ld by linarith
    note c = cell_nat_eq_iff[OF Xs(1,2) XY(1,2) Ys(1) XY(3)] cell_nat_eq_iff[OF Xs(3,4) XY(1,2) Ys(1) XY(3)]
             cell_nat_eq_iff[OF Xs(1,2) XY(1,2) Ys(2) XY(3)] cell_nat_eq_iff[OF Xs(3,4) XY(1,2) Ys(2) XY(3)]
    show ?thesis
      unfolding block_iff
      by (simp only: nth_upd_if length_list_update lt c) auto
  qed
  show ?thesis using eq nth by (intro exI[of _ ?out]) simp
qed

lemma scale2x_row_inv:
  assumes "0 \<le> x" "x \<le> w" "0 \<le> y" "y < h"
    and "int (length src) = w * h" and "int (length dst) = (w * 2) * (h * 2)"
  shows "\<exists>out. scale2x_row src w h y x dst = Some out \<and> length out = length dst \<and>
     (\<forall>X Y. 0 \<le> X \<and> X < w * 2 \<and> 0 \<le> Y \<and> Y < h * 2 \<longrightarrow>
        out ! nat (Y * (w * 2) + X) =
          (if Y div 2 = y \<and> x \<le> X div 2 then epx_at src w h X Y else dst ! nat (Y * (w * 2) + X)))"
  using assms
proof (induction src w h y x dst rule: scale2x_row.induct)
  case (1 src w h y x dst)
  show ?case
  proof (cases "x < w")
    case False
    then have "x = w" using "1.prems" by simp
    have "\<And>X. X < w * 2 \<Longrightarrow> \<not> w \<le> X div 2" by presburger
    then show ?thesis using False \<open>x = w\<close> by (subst scale2x_row.simps) simp
  next
    case True
    obtain d1 where d1: "scale2x_pixel src w h y x dst = Some d1" "length d1 = length dst"
      and n1: "\<And>X Y. 0 \<le> X \<Longrightarrow> X < w * 2 \<Longrightarrow> 0 \<le> Y \<Longrightarrow> Y < h * 2 \<Longrightarrow>
        d1 ! nat (Y * (w * 2) + X) =
          (if X div 2 = x \<and> Y div 2 = y then epx_at src w h X Y else dst ! nat (Y * (w * 2) + X))"
      using scale2x_pixel_nth[OF "1.prems"(1) True "1.prems"(3,4,5,6)] by blast
    have "\<exists>out. scale2x_row src w h y (x + 1) d1 = Some out \<and> length out = length d1 \<and>
     (\<forall>X Y. 0 \<le> X \<and> X < w * 2 \<and> 0 \<le> Y \<and> Y < h * 2 \<longrightarrow>
        out ! nat (Y * (w * 2) + X) =
          (if Y div 2 = y \<and> x + 1 \<le> X div 2 then epx_at src w h X Y else d1 ! nat (Y * (w * 2) + X)))"
      using "1.IH"[OF True d1(1)] True "1.prems" d1(2) by simp
    then obtain out where out: "scale2x_row src w h y (x + 1) d1 = Some out" "length out = length d1"
      and n2: "\<And>X Y. 0 \<le> X \<Longrightarrow> X < w * 2 \<Longrightarrow> 0 \<le> Y \<Longrightarrow> Y < h * 2 \<Longrightarrow>
        out ! nat (Y * (w * 2) + X) =
          (if Y div 2 = y \<and> x + 1 \<le> X div 2 then epx_at src w h X Y else d1 ! nat (Y * (w * 2) + X))"
      by blast
    have r: "scale2x_row src w h y x dst = Some out"
      using True d1(1) out(1) by (subst scale2x_row.simps) simp
    have "out ! nat (Y * (w * 2) + X) =
          (if Y div 2 = y \<and> x \<le> X div 2 then epx_at src w h X Y else dst ! nat (Y * (w * 2) + X))"
      if "0 \<le> X" "X < w * 2" "0 \<le> Y" "Y < h * 2" for X Y
      using n1[OF that] n2[OF that] by auto
    then show ?thesis using r out(2) d1(2) by simp
  qed
qed

lemma scale2x_rows_inv:
  assumes "0 \<le> y" "y \<le> h" "0 \<le> w"
    and "int (length src) = w * h" and "int (length dst) = (w * 2) * (h * 2)"
  shows "\<exists>out. scale2x_rows src w h y dst = Some out \<and> length out = length dst \<and>
     (\<forall>X Y. 0 \<le> X \<and> X < w * 2 \<and> 0 \<le> Y \<and> Y < h * 2 \<longrightarrow>
        out ! nat (Y * (w * 2) + X) =
          (if y \<le> Y div 2 then epx_at src w h X Y else dst ! nat (Y * (w * 2) + X)))"
  using assms
proof (induction src w h y dst rule: scale2x_rows.induct)
  case (1 src w h y dst)
  show ?case
  proof (cases "y < h")
    case False
    then have "y = h" using "1.prems" by simp
    have "\<And>Y. Y < h * 2 \<Longrightarrow> \<not> h \<le> Y div 2" by presburger
    then show ?thesis using False \<open>y = h\<close> by (subst scale2x_rows.simps) simp
  next
    case True
    obtain d1 where d1: "scale2x_row src w h y 0 dst = Some d1" "length d1 = length dst"
      and n1: "\<And>X Y. 0 \<le> X \<Longrightarrow> X < w * 2 \<Longrightarrow> 0 \<le> Y \<Longrightarrow> Y < h * 2 \<Longrightarrow>
        d1 ! nat (Y * (w * 2) + X) =
          (if Y div 2 = y \<and> 0 \<le> X div 2 then epx_at src w h X Y else dst ! nat (Y * (w * 2) + X))"
      using scale2x_row_inv[where x = 0, OF _ "1.prems"(3) "1.prems"(1) True "1.prems"(4,5)] by blast
    have "\<exists>out. scale2x_rows src w h (y + 1) d1 = Some out \<and> length out = length d1 \<and>
     (\<forall>X Y. 0 \<le> X \<and> X < w * 2 \<and> 0 \<le> Y \<and> Y < h * 2 \<longrightarrow>
        out ! nat (Y * (w * 2) + X) =
          (if y + 1 \<le> Y div 2 then epx_at src w h X Y else d1 ! nat (Y * (w * 2) + X)))"
      using "1.IH"[OF True d1(1)] True "1.prems" d1(2) by simp
    then obtain out where out: "scale2x_rows src w h (y + 1) d1 = Some out" "length out = length d1"
      and n2: "\<And>X Y. 0 \<le> X \<Longrightarrow> X < w * 2 \<Longrightarrow> 0 \<le> Y \<Longrightarrow> Y < h * 2 \<Longrightarrow>
        out ! nat (Y * (w * 2) + X) =
          (if y + 1 \<le> Y div 2 then epx_at src w h X Y else d1 ! nat (Y * (w * 2) + X))"
      by blast
    have r: "scale2x_rows src w h y dst = Some out"
      using True d1(1) out(1) by (subst scale2x_rows.simps) simp
    have "out ! nat (Y * (w * 2) + X) =
          (if y \<le> Y div 2 then epx_at src w h X Y else dst ! nat (Y * (w * 2) + X))"
      if "0 \<le> X" "X < w * 2" "0 \<le> Y" "Y < h * 2" for X Y
    proof -
      have "0 \<le> X div 2" using that by simp
      then show ?thesis using n1[OF that] n2[OF that] by auto
    qed
    then show ?thesis using r out(2) d1(2) by simp
  qed
qed

lemma scale2x_total:
  assumes "0 \<le> w" "0 \<le> h"
    and "int (length src) = w * h" and "int (length dst) = (w * 2) * (h * 2)"
  shows "\<exists>out. scale2x src dst w h = Some out \<and> length out = length dst \<and>
     (\<forall>X Y. 0 \<le> X \<and> X < w * 2 \<and> 0 \<le> Y \<and> Y < h * 2 \<longrightarrow>
        out ! nat (Y * (w * 2) + X) = epx_at src w h X Y)"
proof -
  have "\<And>Y::int. 0 \<le> Y \<Longrightarrow> 0 \<le> Y div 2" by simp
  then show ?thesis
    using scale2x_rows_inv[where y = 0, OF _ assms(2,1,3,4)] unfolding scale2x_def by simp
qed

lemma idx_decomp:
  fixes W H :: int
  assumes "0 < W" "int i < W * H"
  shows "\<exists>X Y. 0 \<le> X \<and> X < W \<and> 0 \<le> Y \<and> Y < H \<and> i = nat (Y * W + X)"
proof -
  let ?X = "int i mod W" and ?Y = "int i div W"
  have X: "0 \<le> ?X" "?X < W" using assms by auto
  have Y0: "0 \<le> ?Y" using assms by (simp add: pos_imp_zdiv_nonneg_iff)
  have eq: "?Y * W + ?X = int i" by simp
  have "\<not> H \<le> ?Y"
  proof
    assume "H \<le> ?Y"
    then have "H * W \<le> ?Y * W" using assms by (intro mult_right_mono) auto
    then have "W * H \<le> ?Y * W" by (simp add: mult.commute)
    moreover have "?Y * W \<le> int i" using X(1) eq by linarith
    ultimately show False using assms(2) by linarith
  qed
  then have "?Y < H" by simp
  moreover have "i = nat (?Y * W + ?X)" using eq by simp
  ultimately show ?thesis using X Y0 by blast
qed

lemma pixel_at_mem:
  assumes "0 \<le> x" "x < w" "0 \<le> y" "y < h" "int (length src) = w * h"
  shows "pixel_at src w x y \<in> set src"
proof -
  have "nat (y * w + x) < length src" using cell_bound[OF assms(1-4)] assms(5) by linarith
  then show ?thesis unfolding pixel_at_def by (rule nth_mem)
qed

lemma epx_choice: "epx_tl P A B C D \<in> {P, A, B, C, D}" "epx_tr P A B C D \<in> {P, A, B, C, D}"
  "epx_bl P A B C D \<in> {P, A, B, C, D}" "epx_br P A B C D \<in> {P, A, B, C, D}"
  by (simp_all add: epx_tl_def epx_tr_def epx_bl_def epx_br_def)

lemma epx_at_choice:
  "epx_at src w h X Y \<in> {pixel_at src w (X div 2) (Y div 2), nb_up src w h (X div 2) (Y div 2),
      nb_right src w h (X div 2) (Y div 2), nb_left src w h (X div 2) (Y div 2),
      nb_down src w h (X div 2) (Y div 2)}"
  by (auto simp: epx_at_def Let_def epx_tl_def epx_tr_def epx_bl_def epx_br_def)

lemma nb_mem:
  assumes "0 \<le> x" "x < w" "0 \<le> y" "y < h" "int (length src) = w * h"
  shows "nb_up src w h x y \<in> set src" "nb_right src w h x y \<in> set src"
    "nb_left src w h x y \<in> set src" "nb_down src w h x y \<in> set src"
  using pixel_at_mem[OF assms] pixel_at_mem[of x w "y - 1" h src] pixel_at_mem[of x w "y + 1" h src]
    pixel_at_mem[of "x - 1" w y h src] pixel_at_mem[of "x + 1" w y h src] assms
  by (auto simp: nb_up_def nb_right_def nb_left_def nb_down_def)

lemma epx_at_mem:
  assumes "0 \<le> X" "X < w * 2" "0 \<le> Y" "Y < h * 2" "int (length src) = w * h"
  shows "epx_at src w h X Y \<in> set src"
proof -
  have r: "0 \<le> X div 2" "X div 2 < w" "0 \<le> Y div 2" "Y div 2 < h" using assms by auto
  show ?thesis
    using epx_at_choice[of src w h X Y] pixel_at_mem[OF r assms(5)] nb_mem[OF r assms(5)] by auto
qed

lemma scale2x_nth:
  assumes "0 < w" "0 \<le> h"
    and "int (length src) = w * h" and "int (length dst) = (w * 2) * (h * 2)"
  shows "\<exists>out. scale2x src dst w h = Some out \<and> length out = length dst \<and>
     (\<forall>i < length out. out ! i = epx_at src w h (int i mod (w * 2)) (int i div (w * 2)))"
proof -
  obtain out where out: "scale2x src dst w h = Some out" "length out = length dst"
    and n: "\<And>X Y. 0 \<le> X \<Longrightarrow> X < w * 2 \<Longrightarrow> 0 \<le> Y \<Longrightarrow> Y < h * 2 \<Longrightarrow>
        out ! nat (Y * (w * 2) + X) = epx_at src w h X Y"
    using scale2x_total[OF _ assms(2,3,4)] assms(1) by force
  have "out ! i = epx_at src w h (int i mod (w * 2)) (int i div (w * 2))" if "i < length out" for i
  proof -
    have "int i < (w * 2) * (h * 2)" using that out(2) assms(4) by linarith
    then obtain X Y where XY: "0 \<le> X" "X < w * 2" "0 \<le> Y" "Y < h * 2" "i = nat (Y * (w * 2) + X)"
      using idx_decomp[of "w * 2" i "h * 2"] assms(1) by auto
    then have "int i = Y * (w * 2) + X" by simp
    then have "int i mod (w * 2) = X" "int i div (w * 2) = Y" using XY by auto
    then show ?thesis using n[OF XY(1-4)] XY(5) by simp
  qed
  then show ?thesis using out by blast
qed


lemma scale2x_subset:
  assumes "0 < w" "0 \<le> h"
    and "int (length src) = w * h" and "int (length dst) = (w * 2) * (h * 2)"
  shows "\<exists>out. scale2x src dst w h = Some out \<and> length out = length dst \<and> set out \<subseteq> set src"
proof -
  obtain out where out: "scale2x src dst w h = Some out" "length out = length dst"
    "\<And>i. i < length out \<Longrightarrow> out ! i = epx_at src w h (int i mod (w * 2)) (int i div (w * 2))"
    using scale2x_nth[OF assms] by blast
  have "out ! i \<in> set src" if "i < length out" for i
  proof -
    have lt: "int i < (w * 2) * (h * 2)" using that out(2) assms(4) by linarith
    obtain X Y where XY: "0 \<le> X" "X < w * 2" "0 \<le> Y" "Y < h * 2" "i = nat (Y * (w * 2) + X)"
      using idx_decomp[OF _ lt] assms(1) by auto
    then have "int i = Y * (w * 2) + X" by simp
    then have "int i mod (w * 2) = X" "int i div (w * 2) = Y" using XY by auto
    then show ?thesis using out(3)[OF that] epx_at_mem[OF XY(1-4) assms(3)] by simp
  qed
  then have "set out \<subseteq> set src" by (auto simp: in_set_conv_nth)
  then show ?thesis using out by blast
qed





lemma malloc_Some: "0 \<le> n \<Longrightarrow> malloc_pixels junk n = Some (map junk [0..<nat n])"
  by (simp add: malloc_pixels_def)

lemma scale_nx_copy:
  assumes "0 \<le> w * h" "int (length src) = w * h" "k < 2"
  shows "scale_nx junk src w h k = Some (src, w, h)"
proof -
  have "memcpy_pixels (map junk [0..<nat (w * h)]) src (w * h) = Some src"
    using assms(1,2) by (simp add: memcpy_pixels_def)
  then show ?thesis using assms by (simp add: scale_nx_def malloc_Some)
qed




section \<open>The viewport extractor\<close>





lemma scale_nx_loop_total:
  assumes "0 < cw" "0 < ch" "int (length cur) = cw * ch"
  shows "\<exists>out ow oh. scale_nx_loop junk cur cw ch k = Some (out, ow, oh) \<and>
     0 < ow \<and> 0 < oh \<and> int (length out) = ow * oh"
  using assms
proof (induction junk cur cw ch k rule: scale_nx_loop.induct)
  case (1 junk current cur_w cur_h scale)
  show ?case
  proof (cases "2 \<le> scale")
    case False
    then show ?thesis using "1.prems" by (subst scale_nx_loop.simps) simp
  next
    case True
    let ?next = "map junk [0..<nat (cur_w * 2 * (cur_h * 2))]"
    have m: "malloc_pixels junk (cur_w * 2 * (cur_h * 2)) = Some ?next"
      using "1.prems" by (simp add: malloc_pixels_def)
    have l: "int (length ?next) = (cur_w * 2) * (cur_h * 2)" using "1.prems" by simp
    obtain nx where nx: "scale2x current ?next cur_w cur_h = Some nx" "length nx = length ?next"
      using scale2x_subset[OF "1.prems"(1) _ "1.prems"(3) l] "1.prems"(2) by auto
    have l': "int (length nx) = (cur_w * 2) * (cur_h * 2)" using nx(2) l by simp
    have p: "0 < cur_w * 2" "0 < cur_h * 2" using "1.prems" by auto
    obtain out ow oh where out:
      "scale_nx_loop junk nx (cur_w * 2) (cur_h * 2) (scale div 2) = Some (out, ow, oh)"
      "0 < ow" "0 < oh" "int (length out) = ow * oh"
      using "1.IH"[OF True refl refl m nx(1) p l'] by blast
    have "scale_nx_loop junk current cur_w cur_h scale = Some (out, ow, oh)"
      by (subst scale_nx_loop.simps) (simp only: True if_True Let_def m nx(1) out(1) Option.bind.simps)
    then show ?thesis using out(2,3,4) by blast
  qed
qed

lemma scale_nx_total:
  assumes "0 < w" "0 < h" "int (length src) = w * h"
  shows "\<exists>out ow oh. scale_nx junk src w h k = Some (out, ow, oh) \<and>
     0 < ow \<and> 0 < oh \<and> int (length out) = ow * oh"
proof (cases "k < 2")
  case True
  have "0 \<le> w * h" using assms by simp
  then have "scale_nx junk src w h k = Some (src, w, h)"
    using scale_nx_copy[OF _ assms(3) True] by simp
  then show ?thesis using assms by blast
next
  case False
  then have "scale_nx junk src w h k = scale_nx_loop junk src w h k" by (simp add: scale_nx_def)
  then show ?thesis using scale_nx_loop_total[OF assms] by simp
qed












section \<open>Zoom, rendering and the annotation lists\<close>


lemma CLAMP_up:
  fixes z :: real
  assumes "0.1 \<le> z" "z \<le> 10"
  shows "(if z * 1.1 > 10 then 10 else z * 1.1) = CLAMP (z * 1.1) 0.1 10"
  using assms by (simp add: CLAMP_def)

lemma CLAMP_down:
  fixes z :: real
  assumes "0.1 \<le> z" "z \<le> 10"
  shows "(if z / 1.1 < 0.1 then 0.1 else z / 1.1) = CLAMP (z / 1.1) 0.1 10"
  using assms by (simp add: CLAMP_def)

lemma anchor_fixed:
  fixes m p z z' f :: real
  assumes "z \<noteq> 0" "z' \<noteq> 0"
  shows "(m - (m - (m - p) * (z' / z))) / (f * z') = (m - p) / (f * z)"
proof (cases "f = 0")
  case True
  then show ?thesis by simp
next
  case False
  then show ?thesis using assms by (simp add: field_simps)
qed

lemma zoom_fields:
  "zoom_level (draw_area_scroll_handler_zoom direction mouse_x mouse_y s) =
     (if direction = GDK_SCROLL_UP then (if zoom_level s * 1.1 > 10 then 10 else zoom_level s * 1.1)
      else if direction = GDK_SCROLL_DOWN then (if zoom_level s / 1.1 < 0.1 then 0.1 else zoom_level s / 1.1)
      else zoom_level s)"
  "scaling_factor (draw_area_scroll_handler_zoom direction mouse_x mouse_y s) = scaling_factor s"
  "original_image (draw_area_scroll_handler_zoom direction mouse_x mouse_y s) = original_image s"
  by (simp_all add: draw_area_scroll_handler_zoom_def Let_def)

lemma zoom_pan:
  "pan_x (draw_area_scroll_handler_zoom direction mouse_x mouse_y s) =
     (if zoom_level (draw_area_scroll_handler_zoom direction mouse_x mouse_y s) \<noteq> zoom_level s
      then mouse_x - (mouse_x - pan_x s) *
             (zoom_level (draw_area_scroll_handler_zoom direction mouse_x mouse_y s) / zoom_level s)
      else pan_x s)"
  "pan_y (draw_area_scroll_handler_zoom direction mouse_x mouse_y s) =
     (if zoom_level (draw_area_scroll_handler_zoom direction mouse_x mouse_y s) \<noteq> zoom_level s
      then mouse_y - (mouse_y - pan_y s) *
             (zoom_level (draw_area_scroll_handler_zoom direction mouse_x mouse_y s) / zoom_level s)
      else pan_y s)"
  by (simp_all add: draw_area_scroll_handler_zoom_def Let_def)

lemma cache_fill_refl: "cache_fill p p"
  by (simp add: cache_fill_def)

lemma cache_fill_trans: "cache_fill p q \<Longrightarrow> cache_fill q r \<Longrightarrow> cache_fill p r"
  by (auto simp: cache_fill_def)

lemma cache_fill_same:
  "cache_fill p q \<Longrightarrow> without_cache q = without_cache p"
  "cache_fill p q \<Longrightarrow> can_draw q = can_draw p"
  "cache_fill p q \<Longrightarrow> is_committed q = is_committed p"
  "cache_fill p q \<Longrightarrow> paint_type q = paint_type p"
  "cache_fill p q \<Longrightarrow> content_shape q = content_shape p"
  "cache_fill p q \<Longrightarrow> blur_cached_surface (content_blur p) \<noteq> None \<Longrightarrow> q = p"
  by (auto simp: cache_fill_def without_cache_def)

lemma render_blur_lists:
  "paints (render_blur lib x s) = paints s"
  "redo_paints (render_blur lib x s) = redo_paints s"
  "temp_paint (render_blur lib x s) = temp_paint s"
  "original_image (render_blur lib x s) = original_image s"
  by (simp_all add: render_blur_def Let_def split: option.splits)

lemma render_blur_heap:
  "a \<noteq> x \<Longrightarrow> paint_heap (render_blur lib x s) a = paint_heap s a"
  "cache_fill (paint_heap s a) (paint_heap (render_blur lib x s) a)"
  by (auto simp: render_blur_def Let_def cache_fill_def split: option.splits)


lemma render_paint_lists:
  "paints (render_paint lib x s) = paints s"
  "redo_paints (render_paint lib x s) = redo_paints s"
  "temp_paint (render_paint lib x s) = temp_paint s"
  "original_image (render_paint lib x s) = original_image s"
  by (simp_all add: render_paint_def Let_def render_blur_lists split: swappy_paint_type.splits)

lemma render_paint_heap:
  "a \<noteq> x \<Longrightarrow> paint_heap (render_paint lib x s) a = paint_heap s a"
  "cache_fill (paint_heap s a) (paint_heap (render_paint lib x s) a)"
  by (simp_all add: render_paint_def Let_def render_blur_heap cache_fill_refl
      split: swappy_paint_type.splits)


lemma fold_render_lists:
  "paints (fold (render_paint lib) xs s) = paints s"
  "redo_paints (fold (render_paint lib) xs s) = redo_paints s"
  "temp_paint (fold (render_paint lib) xs s) = temp_paint s"
  "original_image (fold (render_paint lib) xs s) = original_image s"
  by (induction xs arbitrary: s; simp add: render_paint_lists)+

lemma fold_render_heap:
  "cache_fill (paint_heap s a) (paint_heap (fold (render_paint lib) xs s) a)"
proof (induction xs arbitrary: s)
  case Nil
  then show ?case by (simp add: cache_fill_refl)
next
  case (Cons x xs)
  show ?case
    using cache_fill_trans[OF render_paint_heap(2)[of s a lib x] Cons.IH[of "render_paint lib x s"]]
    by simp
qed

lemma render_paints_lists:
  "paints (render_paints lib s) = paints s"
  "redo_paints (render_paints lib s) = redo_paints s"
  "temp_paint (render_paints lib s) = temp_paint s"
  "original_image (render_paints lib s) = original_image s"
  by (simp_all add: render_paints_def Let_def fold_render_lists render_paint_lists split: option.splits)

lemma render_paints_heap:
  "cache_fill (paint_heap s a) (paint_heap (render_paints lib s) a)"
proof (cases "temp_paint (fold (render_paint lib) (rev (paints s)) s)")
  case None
  then show ?thesis by (simp add: render_paints_def Let_def fold_render_heap)
next
  case (Some t)
  then show ?thesis
    using cache_fill_trans[OF fold_render_heap[of s a lib "rev (paints s)"]
        render_paint_heap(2)[of "fold (render_paint lib) (rev (paints s)) s" a lib t]]
    by (simp add: render_paints_def Let_def)
qed

lemma render_image_fields:
  "paints (render_image lib s) = paints s"
  "redo_paints (render_image lib s) = redo_paints s"
  "temp_paint (render_image lib s) = temp_paint s"
  "paint_heap (render_image lib s) = paint_heap s"
  "blur_log (render_image lib s) = blur_log s"
  "original_image (render_image lib s) = original_image s"
  by (simp_all add: render_image_def Let_def)

lemma render_state_lists:
  "paints (render_state lib s) = paints s"
  "redo_paints (render_state lib s) = redo_paints s"
  "temp_paint (render_state lib s) = temp_paint s"
  "original_image (render_state lib s) = original_image s"
  by (simp_all add: render_state_def Let_def render_paints_lists render_image_fields)

lemma render_state_heap:
  "cache_fill (paint_heap s a) (paint_heap (render_state lib s) a)"
  using render_paints_heap[of "render_image lib (s\<lparr>rendering_surface := clear_surface (rendering_surface s)\<rparr>)" a lib]
  by (simp add: render_state_def Let_def render_image_fields)

lemma update_ui_fields:
  "paints (update_ui_undo_redo s) = paints s"
  "redo_paints (update_ui_undo_redo s) = redo_paints s"
  "temp_paint (update_ui_undo_redo s) = temp_paint s"
  "paint_heap (update_ui_undo_redo s) = paint_heap s"
  "blur_log (update_ui_undo_redo s) = blur_log s"
  "original_image (update_ui_undo_redo s) = original_image s"
  by (simp_all add: update_ui_undo_redo_def)

lemma action_undo_Nil: "paints s = [] \<Longrightarrow> action_undo lib s = s"
  by (simp add: action_undo_def)

lemma action_undo_Cons:
  assumes "paints s = p # ps"
  shows "paints (action_undo lib s) = ps" "redo_paints (action_undo lib s) = p # redo_paints s"
    "temp_paint (action_undo lib s) = temp_paint s"
    "cache_fill (paint_heap s a) (paint_heap (action_undo lib s) a)"
  using assms render_state_heap[of "s\<lparr>paints := ps, redo_paints := p # redo_paints s\<rparr>" a lib]
  by (simp_all add: action_undo_def update_ui_fields render_state_lists)

lemma action_redo_Nil: "redo_paints s = [] \<Longrightarrow> action_redo lib s = s"
  by (simp add: action_redo_def)

lemma action_redo_Cons:
  assumes "redo_paints s = p # ps"
  shows "redo_paints (action_redo lib s) = ps" "paints (action_redo lib s) = p # paints s"
    "temp_paint (action_redo lib s) = temp_paint s"
    "cache_fill (paint_heap s a) (paint_heap (action_redo lib s) a)"
  using assms render_state_heap[of "s\<lparr>redo_paints := ps, paints := p # paints s\<rparr>" a lib]
  by (simp_all add: action_redo_def update_ui_fields render_state_lists)

lemma commit_state_drawable:
  assumes "temp_paint s = Some a" "can_draw (paint_heap s a)"
  shows "paints (commit_state lib s) = a # paints s" "redo_paints (commit_state lib s) = []"
    "temp_paint (commit_state lib s) = None"
    "cache_fill ((paint_heap s a)\<lparr>is_committed := True\<rparr>) (paint_heap (commit_state lib s) a)"
    "b \<noteq> a \<Longrightarrow> cache_fill (paint_heap s b) (paint_heap (commit_state lib s) b)"
proof -
  let ?s2 = "s\<lparr>paint_heap := (paint_heap s)(a := (paint_heap s a)\<lparr>is_committed := True\<rparr>),
                paints := a # paints s, temp_paint := None, redo_paints := []\<rparr>"
  have c: "commit_state lib s = update_ui_undo_redo (render_state lib ?s2)"
    using assms by (simp add: commit_state_def paint_commit_temporary_def paint_free_list_def Let_def)
  show "paints (commit_state lib s) = a # paints s" "redo_paints (commit_state lib s) = []"
    "temp_paint (commit_state lib s) = None"
    unfolding c by (simp_all add: update_ui_fields render_state_lists)
  show "cache_fill ((paint_heap s a)\<lparr>is_committed := True\<rparr>) (paint_heap (commit_state lib s) a)"
    unfolding c using render_state_heap[of ?s2 a lib] by (simp add: update_ui_fields)
  show "b \<noteq> a \<Longrightarrow> cache_fill (paint_heap s b) (paint_heap (commit_state lib s) b)"
    unfolding c using render_state_heap[of ?s2 b lib] by (simp add: update_ui_fields)
qed

lemma commit_state_can_draw:
  "can_draw (paint_heap (commit_state lib s) b) = can_draw (paint_heap s b)"
proof -
  let ?s1 = "paint_commit_temporary s"
  let ?s2 = "?s1\<lparr>redo_paints := paint_free_list (redo_paints ?s1)\<rparr>"
  have "can_draw (paint_heap ?s2 b) = can_draw (paint_heap s b)"
    by (simp add: paint_commit_temporary_def split: option.splits)
  moreover have "can_draw (paint_heap (commit_state lib s) b) = can_draw (paint_heap ?s2 b)"
    using cache_fill_same(2)[OF render_state_heap[of ?s2 b lib]]
    by (simp add: commit_state_def Let_def update_ui_fields)
  ultimately show ?thesis by simp
qed


lemma apply_crop_not_drawable:
  assumes "temp_paint s = Some a" "\<not> can_draw (paint_heap s a)"
  shows "action_apply_crop lib ww wh s = s"
  using assms by (simp add: action_apply_crop_def)

lemma apply_crop_empty:
  assumes "temp_paint s = Some a" "paint_type (paint_heap s a) = SWAPPY_PAINT_MODE_CROP"
    "can_draw (paint_heap s a)" "crop_is_empty s a"
  shows "action_apply_crop lib ww wh s = s\<lparr>temp_paint := None\<rparr>"
proof -
  have e: "crop_is_empty s a" by (rule assms(4))
  show ?thesis
    using assms(1,2,3) e by (auto simp: action_apply_crop_def crop_is_empty_def)
qed







section \<open>The blur cache\<close>


















section \<open>The claims\<close>












text \<open>
  C4. On the committed list \<open>paints\<close>, the redo list \<open>redo_paints\<close> and the pending
  \<open>temp_paint\<close>: undo moves the head of \<open>paints\<close> to the head of \<open>redo_paints\<close> and changes
  nothing when \<open>paints\<close> is empty; redo moves the head of \<open>redo_paints\<close> to the head of
  \<open>paints\<close> and changes nothing when \<open>redo_paints\<close> is empty; committing a drawable pending
  annotation puts it at the head of \<open>paints\<close>, empties \<open>redo_paints\<close> and empties the
  pending slot. Hence undo followed by redo gives back both lists, with the same
  annotation at the head, stored as it was (a blur cache that was missing may have been
  filled), and after commit(A), commit(B), undo, commit(C) the redo list is empty, the
  committed list is C, A in front of what it was (so \<open>[C, A]\<close> from empty), and a redo
  changes nothing.
\<close>

theorem undo_redo_commit_stacks:
  "(paints s = [] \<longrightarrow> action_undo lib s = s) \<and>
   (paints s = p # ps \<longrightarrow>
      paints (action_undo lib s) = ps \<and> redo_paints (action_undo lib s) = p # redo_paints s \<and>
      temp_paint (action_undo lib s) = temp_paint s) \<and>
   (redo_paints s = [] \<longrightarrow> action_redo lib s = s) \<and>
   (redo_paints s = p # ps \<longrightarrow>
      redo_paints (action_redo lib s) = ps \<and> paints (action_redo lib s) = p # paints s \<and>
      temp_paint (action_redo lib s) = temp_paint s) \<and>
   (temp_paint s = Some a \<and> can_draw (paint_heap s a) \<longrightarrow>
      paints (commit_state lib s) = a # paints s \<and> redo_paints (commit_state lib s) = [] \<and>
      temp_paint (commit_state lib s) = None) \<and>
   (paints s = p # ps \<longrightarrow>
      paints (action_redo lib (action_undo lib s)) = p # ps \<and>
      redo_paints (action_redo lib (action_undo lib s)) = redo_paints s \<and>
      without_cache (paint_heap (action_redo lib (action_undo lib s)) p) =
        without_cache (paint_heap s p) \<and>
      (blur_cached_surface (content_blur (paint_heap s p)) \<noteq> None \<longrightarrow>
         paint_heap (action_redo lib (action_undo lib s)) p = paint_heap s p)) \<and>
   (temp_paint s = Some A \<and> can_draw (paint_heap s A) \<and> can_draw (paint_heap s B) \<and>
    can_draw (paint_heap s C) \<longrightarrow>
      (let s1 = commit_state lib s;
           s2 = commit_state lib (s1\<lparr>temp_paint := Some B\<rparr>);
           s3 = action_undo lib s2;
           s4 = commit_state lib (s3\<lparr>temp_paint := Some C\<rparr>);
           s5 = action_redo lib s4
       in paints s4 = C # A # paints s \<and> redo_paints s4 = [] \<and>
          s5 = s4))"
proof -
  have undo_redo: "paints (action_redo lib (action_undo lib s)) = p # ps \<and>
      redo_paints (action_redo lib (action_undo lib s)) = redo_paints s \<and>
      without_cache (paint_heap (action_redo lib (action_undo lib s)) p) =
        without_cache (paint_heap s p) \<and>
      (blur_cached_surface (content_blur (paint_heap s p)) \<noteq> None \<longrightarrow>
         paint_heap (action_redo lib (action_undo lib s)) p = paint_heap s p)"
    if ps: "paints s = p # ps"
  proof -
    let ?u = "action_undo lib s"
    note u = action_undo_Cons[OF ps, where lib = lib]
    note r = action_redo_Cons[OF u(2), where lib = lib]
    have cf: "cache_fill (paint_heap s p) (paint_heap (action_redo lib ?u) p)"
      by (rule cache_fill_trans[OF u(4) r(4)])
    show ?thesis
      using r(1,2) u(1) cache_fill_same(1)[OF cf] cache_fill_same(6)[OF cf] by simp
  qed
  have seq: "(let s1 = commit_state lib s;
           s2 = commit_state lib (s1\<lparr>temp_paint := Some B\<rparr>);
           s3 = action_undo lib s2;
           s4 = commit_state lib (s3\<lparr>temp_paint := Some C\<rparr>);
           s5 = action_redo lib s4
       in paints s4 = C # A # paints s \<and> redo_paints s4 = [] \<and> s5 = s4)"
    if h: "temp_paint s = Some A" "can_draw (paint_heap s A)" "can_draw (paint_heap s B)"
      "can_draw (paint_heap s C)"
  proof -
    let ?s1 = "commit_state lib s"
    let ?s1b = "?s1\<lparr>temp_paint := Some B\<rparr>"
    let ?s2 = "commit_state lib ?s1b"
    let ?s3 = "action_undo lib ?s2"
    let ?s3c = "?s3\<lparr>temp_paint := Some C\<rparr>"
    let ?s4 = "commit_state lib ?s3c"
    note c1 = commit_state_drawable(1,2,3)[OF h(1,2), where lib = lib]
    have dB: "can_draw (paint_heap ?s1b B)" using h(3) by (simp add: commit_state_can_draw)
    have tB: "temp_paint ?s1b = Some B" by simp
    note c2 = commit_state_drawable(1,2,3)[OF tB dB, where lib = lib]
    have p2: "paints ?s2 = B # A # paints s" using c2(1) c1(1) by simp
    note u = action_undo_Cons[OF p2, where lib = lib]
    have dC: "can_draw (paint_heap ?s3c C)"
      using h(4) cache_fill_same(2)[OF u(4)[where a = C]] by (simp add: commit_state_can_draw)
    have tC: "temp_paint ?s3c = Some C" by simp
    note c4 = commit_state_drawable(1,2,3)[OF tC dC, where lib = lib]
    have p4: "paints ?s4 = C # A # paints s" using c4(1) u(1) by simp
    have "action_redo lib ?s4 = ?s4" by (rule action_redo_Nil[OF c4(2)])
    then show ?thesis using p4 c4(2) by (simp add: Let_def)
  qed
  show ?thesis
    using action_undo_Nil[where s = s and lib = lib]
      action_undo_Cons(1,2,3)[where s = s and p = p and ps = ps and lib = lib]
      action_redo_Nil[where s = s and lib = lib]
      action_redo_Cons(1,2,3)[where s = s and p = p and ps = ps and lib = lib]
      commit_state_drawable(1,2,3)[where s = s and a = a and lib = lib] undo_redo seq
    by blast
qed

text \<open>
  The theorem on the example session: undo and redo on empty lists, undo and redo of one
  committed annotation, and the sequence commit(1), commit(2), undo, commit(3), redo.
\<close>


theorem undo_redo_commit_stacks_witness:
  "action_undo plain_lib blank_state = blank_state \<and>
   action_redo plain_lib blank_state = blank_state \<and>
   paints (action_undo plain_lib (blank_state\<lparr>paints := [5]\<rparr>)) = [] \<and>
   redo_paints (action_undo plain_lib (blank_state\<lparr>paints := [5]\<rparr>)) = [5] \<and>
   paints (action_redo plain_lib (action_undo plain_lib (blank_state\<lparr>paints := [5]\<rparr>))) = [5] \<and>
   redo_paints (action_redo plain_lib (action_undo plain_lib (blank_state\<lparr>paints := [5]\<rparr>))) = [] \<and>
   (let s1 = commit_state plain_lib (blank_state\<lparr>temp_paint := Some 1\<rparr>);
        s2 = commit_state plain_lib (s1\<lparr>temp_paint := Some 2\<rparr>);
        s3 = action_undo plain_lib s2;
        s4 = commit_state plain_lib (s3\<lparr>temp_paint := Some 3\<rparr>);
        s5 = action_redo plain_lib s4
    in paints s4 = [3, 1] \<and> redo_paints s4 = [] \<and> s5 = s4)"
proof -
  have e: "paints blank_state = []" "redo_paints blank_state = []"
    "\<And>a. can_draw (paint_heap blank_state a)"
    by (simp_all add: blank_state_def blank_paint_def)
  have 1: "action_undo plain_lib blank_state = blank_state \<and>
      action_redo plain_lib blank_state = blank_state"
    using undo_redo_commit_stacks[where s = blank_state and lib = plain_lib] e by simp
  have 2: "paints (action_undo plain_lib (blank_state\<lparr>paints := [5]\<rparr>)) = [] \<and>
   redo_paints (action_undo plain_lib (blank_state\<lparr>paints := [5]\<rparr>)) = [5] \<and>
   paints (action_redo plain_lib (action_undo plain_lib (blank_state\<lparr>paints := [5]\<rparr>))) = [5] \<and>
   redo_paints (action_redo plain_lib (action_undo plain_lib (blank_state\<lparr>paints := [5]\<rparr>))) = []"
    using undo_redo_commit_stacks[where s = "blank_state\<lparr>paints := [5]\<rparr>" and lib = plain_lib
        and p = 5 and ps = "[]"] e
    by simp
  have 3: "(let s1 = commit_state plain_lib (blank_state\<lparr>temp_paint := Some 1\<rparr>);
        s2 = commit_state plain_lib (s1\<lparr>temp_paint := Some 2\<rparr>);
        s3 = action_undo plain_lib s2;
        s4 = commit_state plain_lib (s3\<lparr>temp_paint := Some 3\<rparr>);
        s5 = action_redo plain_lib s4
    in paints s4 = [3, 1] \<and> redo_paints s4 = [] \<and> s5 = s4)"
    using undo_redo_commit_stacks[where s = "blank_state\<lparr>temp_paint := Some 1\<rparr>" and lib = plain_lib
        and A = 1 and B = 2 and C = 3] e
    by simp
  show ?thesis using 1 2 3 by blast
qed

text \<open>
  C8. For a zoom level in \<open>[0.1, 10]\<close>, a scroll step up multiplies the zoom level by 1.1
  and a step down divides it by 1.1, clamped to \<open>[0.1, 10]\<close>; when the zoom level changed,
  the pan offset becomes \<open>mouse - (mouse - pan) * (new_zoom / old_zoom)\<close> in each axis; and
  the image point under the cursor, \<open>(mouse - pan) / (scaling_factor * zoom)\<close>, as well as
  what \<open>screen_coordinates_to_image_coordinates\<close> returns for the cursor, is the same
  before and after the step. Doubles are real numbers here, so this is exact.
\<close>

theorem zoom_step_anchored_at_cursor:
  assumes "0.1 \<le> zoom_level s" "zoom_level s \<le> 10"
  shows "(direction = GDK_SCROLL_UP \<longrightarrow>
            zoom_level (draw_area_scroll_handler_zoom direction mouse_x mouse_y s) =
              CLAMP (zoom_level s * 1.1) 0.1 10) \<and>
         (direction = GDK_SCROLL_DOWN \<longrightarrow>
            zoom_level (draw_area_scroll_handler_zoom direction mouse_x mouse_y s) =
              CLAMP (zoom_level s / 1.1) 0.1 10) \<and>
         0.1 \<le> zoom_level (draw_area_scroll_handler_zoom direction mouse_x mouse_y s) \<and>
         zoom_level (draw_area_scroll_handler_zoom direction mouse_x mouse_y s) \<le> 10 \<and>
         (zoom_level (draw_area_scroll_handler_zoom direction mouse_x mouse_y s) \<noteq> zoom_level s \<longrightarrow>
            pan_x (draw_area_scroll_handler_zoom direction mouse_x mouse_y s) =
              mouse_x - (mouse_x - pan_x s) *
                (zoom_level (draw_area_scroll_handler_zoom direction mouse_x mouse_y s) / zoom_level s) \<and>
            pan_y (draw_area_scroll_handler_zoom direction mouse_x mouse_y s) =
              mouse_y - (mouse_y - pan_y s) *
                (zoom_level (draw_area_scroll_handler_zoom direction mouse_x mouse_y s) / zoom_level s)) \<and>
         (mouse_x - pan_x (draw_area_scroll_handler_zoom direction mouse_x mouse_y s)) /
            (scaling_factor s * zoom_level (draw_area_scroll_handler_zoom direction mouse_x mouse_y s)) =
            (mouse_x - pan_x s) / (scaling_factor s * zoom_level s) \<and>
         (mouse_y - pan_y (draw_area_scroll_handler_zoom direction mouse_x mouse_y s)) /
            (scaling_factor s * zoom_level (draw_area_scroll_handler_zoom direction mouse_x mouse_y s)) =
            (mouse_y - pan_y s) / (scaling_factor s * zoom_level s) \<and>
         screen_coordinates_to_image_coordinates
            (draw_area_scroll_handler_zoom direction mouse_x mouse_y s) mouse_x mouse_y =
           screen_coordinates_to_image_coordinates s mouse_x mouse_y"
proof -
  let ?s' = "draw_area_scroll_handler_zoom direction mouse_x mouse_y s"
  have up: "direction = GDK_SCROLL_UP \<longrightarrow> zoom_level ?s' = CLAMP (zoom_level s * 1.1) 0.1 10"
    using CLAMP_up[OF assms] by (simp add: zoom_fields(1))
  have down: "direction = GDK_SCROLL_DOWN \<longrightarrow> zoom_level ?s' = CLAMP (zoom_level s / 1.1) 0.1 10"
    using CLAMP_down[OF assms] by (simp add: zoom_fields(1))
  have rng: "0.1 \<le> zoom_level ?s' \<and> zoom_level ?s' \<le> 10"
    using assms by (simp add: zoom_fields(1))
  have nz: "zoom_level s \<noteq> 0" "zoom_level ?s' \<noteq> 0" using assms rng by auto
  have pan: "zoom_level ?s' \<noteq> zoom_level s \<longrightarrow>
      pan_x ?s' = mouse_x - (mouse_x - pan_x s) * (zoom_level ?s' / zoom_level s) \<and>
      pan_y ?s' = mouse_y - (mouse_y - pan_y s) * (zoom_level ?s' / zoom_level s)"
    using zoom_pan[of direction mouse_x mouse_y s] by simp
  have ax: "(mouse_x - pan_x ?s') / (scaling_factor s * zoom_level ?s') =
      (mouse_x - pan_x s) / (scaling_factor s * zoom_level s)"
  proof (cases "zoom_level ?s' = zoom_level s")
    case True
    then show ?thesis using zoom_pan(1)[of direction mouse_x mouse_y s] by simp
  next
    case False
    then have "pan_x ?s' = mouse_x - (mouse_x - pan_x s) * (zoom_level ?s' / zoom_level s)"
      using pan by simp
    then show ?thesis using anchor_fixed[OF nz] by simp
  qed
  have ay: "(mouse_y - pan_y ?s') / (scaling_factor s * zoom_level ?s') =
      (mouse_y - pan_y s) / (scaling_factor s * zoom_level s)"
  proof (cases "zoom_level ?s' = zoom_level s")
    case True
    then show ?thesis using zoom_pan(2)[of direction mouse_x mouse_y s] by simp
  next
    case False
    then have "pan_y ?s' = mouse_y - (mouse_y - pan_y s) * (zoom_level ?s' / zoom_level s)"
      using pan by simp
    then show ?thesis using anchor_fixed[OF nz] by simp
  qed
  have img: "screen_coordinates_to_image_coordinates ?s' mouse_x mouse_y =
      screen_coordinates_to_image_coordinates s mouse_x mouse_y"
    unfolding screen_coordinates_to_image_coordinates_def Let_def zoom_fields(2,3) ax ay ..
  show ?thesis using up down rng pan ax ay img by blast
qed

text \<open>The theorem for one step up at the cursor \<open>(100, 50)\<close>, from zoom 1 and pan 0.\<close>

theorem zoom_step_anchored_at_cursor_witness:
  "(0.1 :: real) \<le> zoom_level blank_state \<and> zoom_level blank_state \<le> 10 \<and>
   zoom_level (draw_area_scroll_handler_zoom GDK_SCROLL_UP 100 50 blank_state) = 1.1 \<and>
   pan_x (draw_area_scroll_handler_zoom GDK_SCROLL_UP 100 50 blank_state) = - 10 \<and>
   pan_y (draw_area_scroll_handler_zoom GDK_SCROLL_UP 100 50 blank_state) = - 5 \<and>
   screen_coordinates_to_image_coordinates
     (draw_area_scroll_handler_zoom GDK_SCROLL_UP 100 50 blank_state) 100 50 =
     screen_coordinates_to_image_coordinates blank_state 100 50"
proof -
  have z: "zoom_level blank_state = 1" "pan_x blank_state = 0" "pan_y blank_state = 0"
    by (simp_all add: blank_state_def)
  show ?thesis
    using zoom_step_anchored_at_cursor[where s = blank_state and direction = GDK_SCROLL_UP
        and mouse_x = 100 and mouse_y = 50]
    by (simp add: z CLAMP_def)
qed

text \<open>
  C6 (as amended). For a session whose pending annotation is a crop: when the crop can be
  drawn and its rectangle, resolved from \<open>from\<close> and \<open>to\<close> (centred on \<open>from\<close> in that mode) and
  clamped to the image, has no positive width or height, applying the crop empties the
  pending slot and changes nothing else, so the image, the committed list and the redo
  list are as they were; when the crop cannot be drawn, applying it changes nothing at
  all, and the pending annotation stays.
\<close>

theorem crop_without_area:
  "temp_paint s = Some a \<and> paint_type (paint_heap s a) = SWAPPY_PAINT_MODE_CROP \<longrightarrow>
     (can_draw (paint_heap s a) \<and> crop_is_empty s a \<longrightarrow>
        action_apply_crop lib workarea_width workarea_height s = s\<lparr>temp_paint := None\<rparr>) \<and>
     (\<not> can_draw (paint_heap s a) \<longrightarrow>
        action_apply_crop lib workarea_width workarea_height s = s)"
  using apply_crop_not_drawable[of s a lib workarea_width workarea_height]
    apply_crop_empty[of s a lib workarea_width workarea_height]
  by blast

text \<open>
  The theorem on the example session with a pending crop from \<open>(0, 0)\<close> to \<open>(0, 0)\<close>, once
  drawable and once not.
\<close>

theorem crop_without_area_witness:
  "temp_paint (blank_state\<lparr>temp_paint := Some 7, paint_heap := (\<lambda>a. empty_crop)\<rparr>) = Some 7 \<and>
   paint_type (paint_heap (blank_state\<lparr>temp_paint := Some 7, paint_heap := (\<lambda>a. empty_crop)\<rparr>) 7)
     = SWAPPY_PAINT_MODE_CROP \<and>
   can_draw (paint_heap (blank_state\<lparr>temp_paint := Some 7, paint_heap := (\<lambda>a. empty_crop)\<rparr>) 7) \<and>
   crop_is_empty (blank_state\<lparr>temp_paint := Some 7, paint_heap := (\<lambda>a. empty_crop)\<rparr>) 7 \<and>
   action_apply_crop plain_lib 1920 1080
       (blank_state\<lparr>temp_paint := Some 7, paint_heap := (\<lambda>a. empty_crop)\<rparr>) =
     blank_state\<lparr>temp_paint := None, paint_heap := (\<lambda>a. empty_crop)\<rparr> \<and>
   \<not> can_draw (paint_heap (blank_state\<lparr>temp_paint := Some 7,
       paint_heap := (\<lambda>a. empty_crop\<lparr>can_draw := False\<rparr>)\<rparr>) 7) \<and>
   action_apply_crop plain_lib 1920 1080
       (blank_state\<lparr>temp_paint := Some 7, paint_heap := (\<lambda>a. empty_crop\<lparr>can_draw := False\<rparr>)\<rparr>) =
     blank_state\<lparr>temp_paint := Some 7, paint_heap := (\<lambda>a. empty_crop\<lparr>can_draw := False\<rparr>)\<rparr>"
proof -
  let ?s = "blank_state\<lparr>temp_paint := Some 7, paint_heap := (\<lambda>a. empty_crop)\<rparr>"
  let ?t = "blank_state\<lparr>temp_paint := Some 7, paint_heap := (\<lambda>a. empty_crop\<lparr>can_draw := False\<rparr>)\<rparr>"
  have h: "temp_paint ?s = Some 7" "paint_type (paint_heap ?s 7) = SWAPPY_PAINT_MODE_CROP"
    "can_draw (paint_heap ?s 7)"
    by (simp_all add: empty_crop_def blank_paint_def)
  have e: "crop_is_empty ?s 7"
    by (simp add: crop_is_empty_def crop_clamped_def crop_resolved_def empty_crop_def
        blank_paint_def blank_state_def Let_def)
  have e': "crop_is_empty ?t 7"
    by (simp add: crop_is_empty_def crop_clamped_def crop_resolved_def empty_crop_def
        blank_paint_def blank_state_def Let_def)
  have g: "temp_paint ?t = Some 7" "paint_type (paint_heap ?t 7) = SWAPPY_PAINT_MODE_CROP"
    "\<not> can_draw (paint_heap ?t 7)"
    by (simp_all add: empty_crop_def blank_paint_def)
  have 1: "action_apply_crop plain_lib 1920 1080 ?s = ?s\<lparr>temp_paint := None\<rparr>"
    using crop_without_area[where s = ?s and a = 7 and lib = plain_lib
        and workarea_width = 1920 and workarea_height = 1080] h e
    by blast
  have 2: "action_apply_crop plain_lib 1920 1080 ?t = ?t"
    using crop_without_area[where s = ?t and a = 7 and lib = plain_lib
        and workarea_width = 1920 and workarea_height = 1080] g
    by blast
  show ?thesis using h e g(3) 1 2 by simp
qed

text \<open>
  The claim as first stated fails for a pending crop that cannot be drawn, as it is after
  the pointer went down and before it moved: its rectangle has no area, and applying the
  crop returns at once, with the annotation still pending.
\<close>

theorem crop_not_drawable_counterexample:
  "temp_paint (blank_state\<lparr>temp_paint := Some 7,
       paint_heap := (\<lambda>a. empty_crop\<lparr>can_draw := False\<rparr>)\<rparr>) = Some 7 \<and>
   paint_type (paint_heap (blank_state\<lparr>temp_paint := Some 7,
       paint_heap := (\<lambda>a. empty_crop\<lparr>can_draw := False\<rparr>)\<rparr>) 7) = SWAPPY_PAINT_MODE_CROP \<and>
   crop_is_empty (blank_state\<lparr>temp_paint := Some 7,
       paint_heap := (\<lambda>a. empty_crop\<lparr>can_draw := False\<rparr>)\<rparr>) 7 \<and>
   temp_paint (action_apply_crop plain_lib 1920 1080
       (blank_state\<lparr>temp_paint := Some 7,
          paint_heap := (\<lambda>a. empty_crop\<lparr>can_draw := False\<rparr>)\<rparr>)) = Some 7"
proof -
  let ?t = "blank_state\<lparr>temp_paint := Some 7,
       paint_heap := (\<lambda>a. empty_crop\<lparr>can_draw := False\<rparr>)\<rparr>"
  have g: "temp_paint ?t = Some 7" "paint_type (paint_heap ?t 7) = SWAPPY_PAINT_MODE_CROP"
    "\<not> can_draw (paint_heap ?t 7)"
    by (simp_all add: empty_crop_def blank_paint_def)
  have e: "crop_is_empty ?t 7"
    by (simp add: crop_is_empty_def crop_clamped_def crop_resolved_def empty_crop_def
        blank_paint_def blank_state_def Let_def)
  have "action_apply_crop plain_lib 1920 1080 ?t = ?t"
    by (rule apply_crop_not_drawable[OF g(1,3)])
  then show ?thesis using g e by simp
qed







end
